(* ===== verification/Prelude.thy ===== *)
theory Prelude
  imports Main "HOL-Library.Word"
begin

text \<open>
  Shared vocabulary of the CDC-ACM development: the C integer types of
  \<^verbatim>\<open>src/fw/src/setup/usb.c\<close> as words, the little-endian 16-bit split that the
  descriptor macros write (\<^verbatim>\<open>WBVAL\<close>), the proof collections the component
  theories add to, and the generic lemmas on byte lists they share.
\<close>

unbundle bit_operations_syntax

section \<open>Machine types\<close>

type_synonym u8 = "8 word"
type_synonym u16 = "16 word"
type_synonym u32 = "32 word"
type_synonym bytes = "u8 list"

named_theorems cdc_defs "constant definitions of the CDC-ACM source, unfolded for evaluation"
named_theorems desc_simps "rewrite rules that evaluate descriptor byte lists"

section \<open>Little-endian 16-bit fields\<close>

text \<open>
  CherryUSB writes every 16-bit descriptor field with
  \<^verbatim>\<open>#define WBVAL(x) (x & 0xFF), ((x >> 8) & 0xFF)\<close>: the low byte first, each
  byte then converted to \<^verbatim>\<open>uint8_t\<close> by the array initialiser. The argument is a
  C \<^verbatim>\<open>int\<close> constant.
\<close>

definition WBVAL :: "int \<Rightarrow> bytes" where
  "WBVAL x = [word_of_int (x AND 0xFF), word_of_int (drop_bit 8 x AND 0xFF)]"

text \<open>Reading a little-endian 16-bit field back, as a host's descriptor parser does.\<close>

definition le16 :: "u8 \<Rightarrow> u8 \<Rightarrow> nat" where
  "le16 lo hi = unat lo + 256 * unat hi"

lemma WBVAL_length [simp]: "length (WBVAL x) = 2"
  by (simp add: WBVAL_def)

lemma unat_u8_of_int: "unat (word_of_int k :: u8) = nat (k mod 256)"
  by (simp add: unat_eq_nat_uint uint_word_of_int)

lemma and_255_mod: "(x::int) AND 255 = x mod 256"
  using take_bit_eq_mask [of 8 x] by (simp add: take_bit_eq_mod mask_eq_exp_minus_1)

lemma nat_split_256: "0 \<le> (x::int) \<Longrightarrow> nat (x mod 256) + 256 * nat (x div 256) = nat x"
proof -
  assume "0 \<le> x"
  then obtain n where "x = int n" by (metis nonneg_eq_int)
  then show ?thesis by (simp add: nat_mod_distrib nat_div_distrib)
qed

text \<open>The round trip of the 16-bit split: reading both bytes back gives the value.\<close>

lemma le16_WBVAL:
  assumes "0 \<le> x" and "x < 65536"
  shows "le16 (WBVAL x ! 0) (WBVAL x ! 1) = nat x"
proof -
  have lo: "unat (word_of_int (x AND 255) :: u8) = nat (x mod 256)"
    by (simp add: unat_u8_of_int and_255_mod)
  have hi: "unat (word_of_int (drop_bit 8 x AND 255) :: u8) = nat ((x div 256) mod 256)"
    by (simp add: unat_u8_of_int and_255_mod drop_bit_eq_div)
  have "(x div 256) mod 256 = x div 256"
    using assms by simp
  then have "nat (x mod 256) + 256 * nat ((x div 256) mod 256) = nat x"
    using assms by (simp add: nat_split_256)
  then show ?thesis
    by (simp add: le16_def WBVAL_def lo hi)
qed

text \<open>Single-bit masks of 32-bit registers: setting and clearing one bit.\<close>

lemma bit_push_1_u32: "bit (push_bit k (1::u32)) n = (n = k \<and> k < 32)"
  by (simp only: bit_push_bit_iff bit_1_iff) auto

lemma bit_or_push_u32: "bit (v OR push_bit k (1::u32)) n = (n = k \<and> k < 32 \<or> bit v n)"
  by (simp only: bit_or_iff bit_push_1_u32) auto

lemma bit_and_not_push_u32: "bit (v AND NOT (push_bit k (1::u32))) n = (n \<noteq> k \<and> bit v n)"
  by (simp only: bit_and_iff bit_not_iff bit_push_1_u32) (auto dest: bit_imp_le_length)

section \<open>Byte lists\<close>

text \<open>
  The descriptor table is a concatenation of records each of whose first byte is its
  own length. These facts about splitting a concatenation back are shared by the
  descriptor walk and its round-trip proofs.
\<close>

lemma take_length_append [simp]: "n = length xs \<Longrightarrow> take n (xs @ ys) = xs"
  by simp

lemma drop_length_append [simp]: "n = length xs \<Longrightarrow> drop n (xs @ ys) = ys"
  by simp

text \<open>
  \<^verbatim>\<open>memcpy(&dst[off], src, n)\<close> and \<^verbatim>\<open>memset(&dst[off], c, n)\<close> on a buffer held as a
  list. In range (\<open>off + n \<le> length dst\<close>) they keep the buffer's length; out of
  range C has undefined behaviour, and the model would grow the list, which the
  invariants of the components exclude.
\<close>

definition memcpy_at :: "'a list \<Rightarrow> nat \<Rightarrow> 'a list \<Rightarrow> 'a list" where
  "memcpy_at dst off src = take off dst @ src @ drop (off + length src) dst"

definition memset_at :: "'a list \<Rightarrow> nat \<Rightarrow> 'a \<Rightarrow> nat \<Rightarrow> 'a list" where
  "memset_at dst off c n = take off dst @ replicate n c @ drop (off + n) dst"

lemma length_memcpy_at [simp]:
  "off + length src \<le> length dst \<Longrightarrow> length (memcpy_at dst off src) = length dst"
  by (simp add: memcpy_at_def)

lemma length_memset_at [simp]:
  "off + n \<le> length dst \<Longrightarrow> length (memset_at dst off c n) = length dst"
  by (simp add: memset_at_def)

lemma memcpy_at_0_prefix: "length src \<le> length dst \<Longrightarrow> take (length src) (memcpy_at dst 0 src) = src"
  by (simp add: memcpy_at_def)

end
