(* ===== verification/Descriptors.thy ===== *)
theory Descriptors
  imports Prelude
begin

text \<open>
  The descriptor table of \<^verbatim>\<open>src/fw/src/setup/usb.c\<close> (lines 9--105): the
  endpoint addresses and sizes, the CherryUSB descriptor macros it is built from
  (modelled from the USB 2.0 and CDC 1.10 layouts they write, since the macro
  headers are not under \<^verbatim>\<open>src/\<close>), the table \<open>cdc_descriptor\<close> for both builds
  (\<open>hs\<close> is \<^verbatim>\<open>CONFIG_USB_HS\<close>), the stack's lookup \<open>usbd_get_descriptor\<close>
  that answers GET\_DESCRIPTOR from it, and a host-side parser \<open>desc_walk\<close>.
  The lemmas show that the table parses into the descriptors the USB and CDC
  specifications require, with consistent length fields, and that the stack's
  byte-level lookup refines the abstract lookup \<open>desc_lookup\<close> on the parsed table,
  errors included.
\<close>

section \<open>Constants of usb.c\<close>

definition CDC_IN_EP :: u8 where [cdc_defs]: "CDC_IN_EP = 0x81"
definition CDC_OUT_EP :: u8 where [cdc_defs]: "CDC_OUT_EP = 0x02"
definition CDC_INT_EP :: u8 where [cdc_defs]: "CDC_INT_EP = 0x83"

definition USBD_VID :: int where [cdc_defs]: "USBD_VID = 0xFFFF"
definition USBD_PID :: int where [cdc_defs]: "USBD_PID = 0xFFFF"
definition USBD_MAX_POWER :: int where [cdc_defs]: "USBD_MAX_POWER = 100"
definition USBD_LANGID_STRING :: int where [cdc_defs]: "USBD_LANGID_STRING = 1033"

text \<open>\<^verbatim>\<open>CDC_MAX_MPS\<close>: 512 in the high-speed build, 64 otherwise (defined twice in
  the source, lines 22--26 and 112--116, identically).\<close>

definition CDC_MAX_MPS :: "bool \<Rightarrow> int" where
  [cdc_defs]: "CDC_MAX_MPS hs = (if hs then 512 else 64)"

section \<open>CherryUSB descriptor macros\<close>

definition USB_2_0 :: int where [cdc_defs]: "USB_2_0 = 0x0200"
definition USB_CONFIG_BUS_POWERED :: u8 where [cdc_defs]: "USB_CONFIG_BUS_POWERED = 0x80"
definition USB_DESCRIPTOR_TYPE_STRING :: u8 where [cdc_defs]: "USB_DESCRIPTOR_TYPE_STRING = 0x03"
definition USB_DESCRIPTOR_TYPE_DEVICE_QUALIFIER :: u8 where
  [cdc_defs]: "USB_DESCRIPTOR_TYPE_DEVICE_QUALIFIER = 0x06"

text \<open>Device descriptor (18 bytes; type 0x01). \<^verbatim>\<open>bMaxPacketSize0\<close> is fixed at 64 and
  the string indices at 1, 2, 3 by the macro.\<close>

definition USB_DEVICE_DESCRIPTOR_INIT ::
  "int \<Rightarrow> u8 \<Rightarrow> u8 \<Rightarrow> u8 \<Rightarrow> int \<Rightarrow> int \<Rightarrow> int \<Rightarrow> u8 \<Rightarrow> bytes" where
  "USB_DEVICE_DESCRIPTOR_INIT bcdUSB bDeviceClass bDeviceSubClass bDeviceProtocol
     idVendor idProduct bcdDevice bNumConfigurations =
     [0x12, 0x01] @ WBVAL bcdUSB @ [bDeviceClass, bDeviceSubClass, bDeviceProtocol, 0x40]
     @ WBVAL idVendor @ WBVAL idProduct @ WBVAL bcdDevice
     @ [0x01, 0x02, 0x03, bNumConfigurations]"

text \<open>Configuration descriptor (9 bytes; type 0x02); \<^verbatim>\<open>bMaxPower\<close> is in units of 2 mA.\<close>

definition USB_CONFIG_DESCRIPTOR_INIT :: "int \<Rightarrow> u8 \<Rightarrow> u8 \<Rightarrow> u8 \<Rightarrow> int \<Rightarrow> bytes" where
  "USB_CONFIG_DESCRIPTOR_INIT wTotalLength bNumInterfaces bConfigurationValue bmAttributes bMaxPower =
     [0x09, 0x02] @ WBVAL wTotalLength
     @ [bNumInterfaces, bConfigurationValue, 0x00, bmAttributes, word_of_int (bMaxPower div 2)]"

text \<open>
  The CDC-ACM function: an interface association (8 bytes, type 0x0B), the
  communication interface (class 0x02, subclass ACM 0x02, protocol AT 0x01) with its
  header, call-management, ACM and union functional descriptors (type 0x24) and its
  interrupt endpoint, then the data interface (class 0x0A) with its bulk OUT and
  bulk IN endpoints.
\<close>

definition CDC_ACM_DESCRIPTOR_LEN :: int where
  [cdc_defs]: "CDC_ACM_DESCRIPTOR_LEN = 8 + 9 + 5 + 5 + 4 + 5 + 7 + 9 + 7 + 7"

definition CDC_ACM_DESCRIPTOR_INIT :: "u8 \<Rightarrow> u8 \<Rightarrow> u8 \<Rightarrow> u8 \<Rightarrow> int \<Rightarrow> u8 \<Rightarrow> bytes" where
  "CDC_ACM_DESCRIPTOR_INIT bFirstInterface int_ep out_ep in_ep wMaxPacketSize str_idx =
     [0x08, 0x0B, bFirstInterface, 0x02, 0x02, 0x02, 0x01, 0x00]
     @ [0x09, 0x04, bFirstInterface, 0x00, 0x01, 0x02, 0x02, 0x01, str_idx]
     @ [0x05, 0x24, 0x00] @ WBVAL 0x0110
     @ [0x05, 0x24, 0x01, 0x00, bFirstInterface + 1]
     @ [0x04, 0x24, 0x02, 0x02]
     @ [0x05, 0x24, 0x06, bFirstInterface, bFirstInterface + 1]
     @ [0x07, 0x05, int_ep, 0x03, 0x08, 0x00, 0x0a]
     @ [0x09, 0x04, bFirstInterface + 1, 0x00, 0x02, 0x0A, 0x00, 0x00, 0x00]
     @ [0x07, 0x05, out_ep, 0x02] @ WBVAL wMaxPacketSize @ [0x00]
     @ [0x07, 0x05, in_ep, 0x02] @ WBVAL wMaxPacketSize @ [0x00]"

definition USB_LANGID_INIT :: "int \<Rightarrow> bytes" where
  "USB_LANGID_INIT langid = [0x04, 0x03] @ WBVAL langid"

section \<open>The descriptor table\<close>

definition USB_CONFIG_SIZE :: int where
  [cdc_defs]: "USB_CONFIG_SIZE = 9 + CDC_ACM_DESCRIPTOR_LEN"

text \<open>A character constant of C, \<^verbatim>\<open>'C'\<close>, stored into a \<^verbatim>\<open>uint8_t\<close>.\<close>

abbreviation chr :: "char \<Rightarrow> u8" where
  "chr c \<equiv> of_char c"

definition cdc_descriptor :: "bool \<Rightarrow> bytes" where
  "cdc_descriptor hs =
     USB_DEVICE_DESCRIPTOR_INIT USB_2_0 0xEF 0x02 0x01 USBD_VID USBD_PID 0x0100 0x01
     @ USB_CONFIG_DESCRIPTOR_INIT USB_CONFIG_SIZE 0x02 0x01 USB_CONFIG_BUS_POWERED USBD_MAX_POWER
     @ CDC_ACM_DESCRIPTOR_INIT 0x00 CDC_INT_EP CDC_OUT_EP CDC_IN_EP (CDC_MAX_MPS hs) 0x02
     @ USB_LANGID_INIT USBD_LANGID_STRING
     @ [0x14, USB_DESCRIPTOR_TYPE_STRING,
        chr CHR ''C'', 0x00, chr CHR ''h'', 0x00, chr CHR ''e'', 0x00, chr CHR ''r'', 0x00,
        chr CHR ''r'', 0x00, chr CHR ''y'', 0x00, chr CHR ''U'', 0x00, chr CHR ''S'', 0x00,
        chr CHR ''B'', 0x00]
     @ [0x26, USB_DESCRIPTOR_TYPE_STRING,
        chr CHR ''C'', 0x00, chr CHR ''h'', 0x00, chr CHR ''e'', 0x00, chr CHR ''r'', 0x00,
        chr CHR ''r'', 0x00, chr CHR ''y'', 0x00, chr CHR ''U'', 0x00, chr CHR ''S'', 0x00,
        chr CHR ''B'', 0x00, chr CHR '' '', 0x00, chr CHR ''C'', 0x00, chr CHR ''D'', 0x00,
        chr CHR ''C'', 0x00, chr CHR '' '', 0x00, chr CHR ''D'', 0x00, chr CHR ''E'', 0x00,
        chr CHR ''M'', 0x00, chr CHR ''O'', 0x00]
     @ [0x16, USB_DESCRIPTOR_TYPE_STRING,
        chr CHR ''2'', 0x00, chr CHR ''0'', 0x00, chr CHR ''2'', 0x00, chr CHR ''2'', 0x00,
        chr CHR ''1'', 0x00, chr CHR ''2'', 0x00, chr CHR ''3'', 0x00, chr CHR ''4'', 0x00,
        chr CHR ''5'', 0x00, chr CHR ''6'', 0x00]
     @ (if hs then [0x0a, USB_DESCRIPTOR_TYPE_DEVICE_QUALIFIER,
                    0x00, 0x02, 0x02, 0x02, 0x01, 0x40, 0x01, 0x00]
        else [])
     @ [0x00]"

section \<open>Reading the table\<close>

text \<open>
  A host-side descriptor parser: each descriptor starts with its length
  \<^verbatim>\<open>bLength\<close> (at least 2, the length and type bytes) and its type
  \<^verbatim>\<open>bDescriptorType\<close>; the table ends at a zero length byte. \<open>None\<close> is a
  malformed table (a length below 2, or past the end of the bytes).
\<close>

fun desc_walk :: "bytes \<Rightarrow> bytes list option" where
  "desc_walk [] = None"
| "desc_walk (l # rest) =
     (if l = 0 then Some []
      else if unat l < 2 \<or> length rest < unat l - 1 then None
      else map_option (\<lambda>ds. (l # take (unat l - 1) rest) # ds) (desc_walk (drop (unat l - 1) rest)))"

text \<open>A well-formed descriptor: its first byte is its own length, between 2 and 255.\<close>

definition desc_ok :: "bytes \<Rightarrow> bool" where
  "desc_ok d \<longleftrightarrow> 2 \<le> length d \<and> length d < 256 \<and> hd d = of_nat (length d)"

text \<open>
  CherryUSB's \<^verbatim>\<open>usbd_get_descriptor\<close> answering GET\_DESCRIPTOR(type, index): it
  rejects the interface and endpoint types (4, 5) and every type above
  OTHER\_SPEED\_CONFIGURATION (7), which covers BOS (0x0F); otherwise it walks the
  registered table by \<^verbatim>\<open>bLength\<close> until a zero length, counting the descriptors of
  the requested type, and serves \<^verbatim>\<open>wTotalLength\<close> bytes for a configuration or
  other-speed configuration descriptor (types 2, 7) and \<^verbatim>\<open>bLength\<close> bytes
  otherwise. \<open>None\<close> is a request error (the stack stalls). The index is the low byte
  of \<^verbatim>\<open>wValue\<close>, zero-extended: a \<open>nat\<close> here, every value below 256 being a
  request the host can send.
\<close>

fun desc_find :: "bytes \<Rightarrow> u8 \<Rightarrow> nat \<Rightarrow> bytes option" where
  "desc_find [] ty idx = None"
| "desc_find (l # rest) ty idx =
     (if l = 0 then None
      else if rest \<noteq> [] \<and> hd rest = ty
      then (if idx = 0 then Some (l # rest) else desc_find (drop (unat l - 1) rest) ty (idx - 1))
      else desc_find (drop (unat l - 1) rest) ty idx)"

definition usbd_get_descriptor :: "bytes \<Rightarrow> u8 \<Rightarrow> nat \<Rightarrow> bytes option" where
  "usbd_get_descriptor tbl ty idx =
     (if ty = 0x04 \<or> ty = 0x05 \<or> 0x07 < ty then None
      else map_option (\<lambda>p. take (if ty = 0x02 \<or> ty = 0x07 then le16 (p ! 2) (p ! 3) else unat (p ! 0)) p)
             (desc_find tbl ty idx))"

text \<open>
  The abstract contract of GET\_DESCRIPTOR on a parsed table: the \<open>idx\<close>-th
  descriptor of type \<open>ty\<close>, or an error when there are not that many.
\<close>

definition desc_lookup :: "bytes list \<Rightarrow> u8 \<Rightarrow> nat \<Rightarrow> bytes option" where
  "desc_lookup ds ty idx =
     (let m = filter (\<lambda>d. d ! 1 = ty) ds in if idx < length m then Some (m ! idx) else None)"

text \<open>
  A USB string descriptor for an ASCII text, as the spec's design constraint states it:
  \<^verbatim>\<open>bLength = 2 + 2 * len(text)\<close>, type 3, then the text in UTF-16LE.
\<close>

definition string_desc :: "string \<Rightarrow> bytes" where
  "string_desc t = of_nat (2 + 2 * length t) # USB_DESCRIPTOR_TYPE_STRING # concat (map (\<lambda>c. [chr c, 0]) t)"

text \<open>The suffix of a parsed table from its \<open>idx\<close>-th descriptor of type \<open>ty\<close>: where
  the stack's search stops.\<close>

fun desc_suffix :: "bytes list \<Rightarrow> u8 \<Rightarrow> nat \<Rightarrow> bytes list option" where
  "desc_suffix [] ty idx = None"
| "desc_suffix (d # ds) ty idx =
     (if d ! 1 = ty then (if idx = 0 then Some (d # ds) else desc_suffix ds ty (idx - 1))
      else desc_suffix ds ty idx)"

text \<open>
  A host's structural check of a configuration block (the configuration descriptor and
  the descriptors after it): \<^verbatim>\<open>bNumInterfaces\<close> is the number of interface
  descriptors, numbered 0, 1, ... in order (no alternate settings); each interface's
  \<^verbatim>\<open>bNumEndpoints\<close> is the number of endpoint descriptors before the next interface;
  endpoint addresses are distinct; the interface association, and the interfaces that
  the call-management and union functional descriptors name, lie within the
  configuration.
\<close>

fun ifaces_ok :: "bytes list \<Rightarrow> bool" where
  "ifaces_ok [] = True"
| "ifaces_ok (d # ds) =
     ((if d ! 1 = 0x04
       then unat (d ! 4) = length (filter (\<lambda>e. e ! 1 = 0x05) (takeWhile (\<lambda>e. e ! 1 \<noteq> 0x04) ds))
       else True) \<and> ifaces_ok ds)"

definition config_consistent :: "bytes list \<Rightarrow> bool" where
  "config_consistent cb \<longleftrightarrow>
     (let ifs = filter (\<lambda>d. d ! 1 = 0x04) cb; eps = filter (\<lambda>d. d ! 1 = 0x05) cb; n = length ifs
      in cb \<noteq> [] \<and> hd cb ! 1 = 0x02 \<and> unat (hd cb ! 4) = n \<and>
         map (\<lambda>d. unat (d ! 2)) ifs = [0..<n] \<and> ifaces_ok (tl cb) \<and>
         distinct (map (\<lambda>d. d ! 2) eps) \<and>
         list_all (\<lambda>d. if d ! 1 = 0x0B then unat (d ! 2) + unat (d ! 3) \<le> n else True) cb \<and>
         list_all (\<lambda>d. if d ! 1 = 0x24 \<and> d ! 2 = 0x06 then unat (d ! 3) < n \<and> unat (d ! 4) < n
                       else True) cb \<and>
         list_all (\<lambda>d. if d ! 1 = 0x24 \<and> d ! 2 = 0x01 then unat (d ! 4) < n else True) cb)"

lemmas desc_eval = cdc_descriptor_def cdc_defs USB_DEVICE_DESCRIPTOR_INIT_def
  USB_CONFIG_DESCRIPTOR_INIT_def CDC_ACM_DESCRIPTOR_INIT_def USB_LANGID_INIT_def WBVAL_def

section \<open>The parser reads back any well-formed table\<close>

lemma desc_walk_concat:
  "list_all desc_ok ds \<Longrightarrow> desc_walk (concat ds @ 0 # rest) = Some ds"
proof (induction ds)
  case Nil
  then show ?case by simp
next
  case (Cons d ds)
  then obtain l t where d: "d = l # t" and l: "l = of_nat (length d)" and len: "2 \<le> length d" "length d < 256"
    by (cases d) (auto simp: desc_ok_def)
  have ul: "unat l = length d"
    using l len by (simp add: unat_of_nat)
  have "l \<noteq> 0" using ul len by auto
  have "t \<noteq> []" using len d by auto
  with \<open>l \<noteq> 0\<close> ul len Cons d show ?case by simp
qed

lemma desc_walk_Some:
  "desc_walk bs = Some ds \<Longrightarrow> list_all desc_ok ds \<and> (\<exists>rest. bs = concat ds @ 0 # rest)"
proof (induction bs arbitrary: ds rule: desc_walk.induct)
  case 1
  then show ?case by simp
next
  case (2 l rest)
  show ?case
  proof (cases "l = 0")
    case True
    with "2.prems" show ?thesis by auto
  next
    case False
    with "2.prems" obtain ds' where ok: "2 \<le> unat l" "unat l - 1 \<le> length rest"
      and ds: "ds = (l # take (unat l - 1) rest) # ds'"
      and w: "desc_walk (drop (unat l - 1) rest) = Some ds'"
      by (auto split: if_splits)
    from "2.IH" [OF False _ w] ok have ih: "list_all desc_ok ds' \<and> (\<exists>r. drop (unat l - 1) rest = concat ds' @ 0 # r)"
      by auto
    have "desc_ok (l # take (unat l - 1) rest)"
      using ok unsigned_less [of l] by (simp add: desc_ok_def)
    moreover from ih obtain r where "drop (unat l - 1) rest = concat ds' @ 0 # r" by blast
    then have "l # rest = concat ds @ 0 # r"
      using ds by (metis append.assoc append_take_drop_id concat.simps(2) Cons_eq_appendI)
    ultimately show ?thesis using ih ds by auto
  qed
qed

lemma desc_walk_roundtrip:
  "(desc_walk bs = Some ds) = (list_all desc_ok ds \<and> (\<exists>rest. bs = concat ds @ 0 # rest))"
  using desc_walk_Some desc_walk_concat by blast

text \<open>The byte-level search of \<open>usbd_get_descriptor\<close> against the abstract lookup.\<close>

lemma desc_lookup_Nil [simp]: "desc_lookup [] ty idx = None"
  by (simp add: desc_lookup_def)

lemma desc_lookup_Cons:
  "desc_lookup (d # ds) ty idx =
     (if d ! 1 = ty then (if idx = 0 then Some d else desc_lookup ds ty (idx - 1))
      else desc_lookup ds ty idx)"
  by (cases idx) (simp_all add: desc_lookup_def Let_def)

lemma desc_ok_unat_hd: "desc_ok d \<Longrightarrow> unat (hd d) = length d"
  by (simp add: desc_ok_def unat_of_nat)

lemma desc_find_concat:
  "list_all desc_ok ds \<Longrightarrow>
     map_option (\<lambda>p. take (unat (p ! 0)) p) (desc_find (concat ds @ 0 # r) ty idx) = desc_lookup ds ty idx"
proof (induction ds arbitrary: idx)
  case Nil
  then show ?case by simp
next
  case (Cons d ds)
  then have ok: "desc_ok d" and ih: "\<And>i. map_option (\<lambda>p. take (unat (p ! 0)) p)
      (desc_find (concat ds @ 0 # r) ty i) = desc_lookup ds ty i" by simp_all
  obtain l t where d: "d = l # t" and t: "t \<noteq> []"
    using ok by (cases d; cases "tl d") (auto simp: desc_ok_def)
  have l: "unat l = Suc (length t)" using desc_ok_unat_hd [OF ok] d by simp
  then have "l \<noteq> 0" by auto
  with l t d show ?case
    by (simp add: desc_lookup_Cons ih hd_append hd_conv_nth [OF t] split: if_splits)
qed

lemma desc_find_suffix:
  "list_all desc_ok ds \<Longrightarrow>
     desc_find (concat ds @ 0 # r) ty idx = map_option (\<lambda>ds'. concat ds' @ 0 # r) (desc_suffix ds ty idx)"
proof (induction ds arbitrary: idx)
  case Nil
  then show ?case by simp
next
  case (Cons d ds)
  then have ok: "desc_ok d" and ih: "\<And>i. desc_find (concat ds @ 0 # r) ty i =
      map_option (\<lambda>ds'. concat ds' @ 0 # r) (desc_suffix ds ty i)" by simp_all
  obtain l t where d: "d = l # t" and t: "t \<noteq> []"
    using ok by (cases d; cases "tl d") (auto simp: desc_ok_def)
  have l: "unat l = Suc (length t)" using desc_ok_unat_hd [OF ok] d by simp
  then have "l \<noteq> 0" by auto
  with l t d show ?case
    by (simp add: ih hd_append hd_conv_nth [OF t])
qed

lemma get_descriptor_lookup:
  assumes "list_all desc_ok ds" and "ty \<noteq> 0x02" and "ty \<noteq> 0x07"
    and "\<not> (ty = 0x04 \<or> ty = 0x05 \<or> 0x07 < ty)"
  shows "usbd_get_descriptor (concat ds @ 0 # r) ty idx = desc_lookup ds ty idx"
  using assms by (simp add: usbd_get_descriptor_def desc_find_concat)

lemma get_descriptor_absent:
  assumes "list_all desc_ok ds" and "desc_suffix ds ty idx = None"
  shows "usbd_get_descriptor (concat ds @ 0 # r) ty idx = None"
  using assms by (simp add: usbd_get_descriptor_def desc_find_suffix)

section \<open>Properties of the table\<close>

text \<open>
  C10: the descriptor table of each build is a well-formed sequence of descriptors
  closed by a zero byte, in this order: device, configuration, interface association,
  communication interface, four CDC functional descriptors, interrupt endpoint, data
  interface, bulk OUT and bulk IN endpoints, the language-ID string and three text
  strings, and in the high-speed build the device qualifier.
\<close>

theorem cdc_descriptor_layout:
  "\<exists>ds. cdc_descriptor hs = concat ds @ [0] \<and> list_all desc_ok ds \<and>
     map (\<lambda>d. d ! 1) ds =
       [0x01, 0x02, 0x0B, 0x04, 0x24, 0x24, 0x24, 0x24, 0x05, 0x04, 0x05, 0x05, 0x03, 0x03, 0x03, 0x03]
       @ (if hs then [0x06] else [])"
proof -
  obtain ds where w: "desc_walk (cdc_descriptor hs) = Some ds"
    and ty: "map (\<lambda>d. d ! 1) ds =
       [0x01, 0x02, 0x0B, 0x04, 0x24, 0x24, 0x24, 0x24, 0x05, 0x04, 0x05, 0x05, 0x03, 0x03, 0x03, 0x03]
       @ (if hs then [0x06] else [])"
    and len: "length (cdc_descriptor hs) = Suc (length (concat ds))"
    by (cases hs) (simp_all add: desc_eval)
  from desc_walk_Some [OF w] obtain rest where ok: "list_all desc_ok ds"
    and eq: "cdc_descriptor hs = concat ds @ 0 # rest" by blast
  from eq len have "rest = []" by simp
  with eq ok ty show ?thesis by auto
qed

text \<open>
  C11: the configuration descriptor's \<^verbatim>\<open>wTotalLength\<close> (\<^verbatim>\<open>USB_CONFIG_SIZE\<close> = 75)
  equals the byte count of the configuration descriptor and all descriptors after it
  up to the next top-level descriptor, the first string descriptor.
\<close>

theorem config_total_length:
  "\<exists>ds. desc_walk (cdc_descriptor hs) = Some ds \<and> ds ! 1 ! 1 = 0x02 \<and>
     le16 (ds ! 1 ! 2) (ds ! 1 ! 3) =
       sum_list (map length (takeWhile (\<lambda>d. d ! 1 \<noteq> USB_DESCRIPTOR_TYPE_STRING) (drop 1 ds))) \<and>
     le16 (ds ! 1 ! 2) (ds ! 1 ! 3) = nat USB_CONFIG_SIZE"
  by (cases hs) (simp_all add: desc_eval le16_def)

text \<open>
  C12: the hand-written string descriptors of the table are exactly the language-ID
  descriptor for 1033 (US English) followed by the string descriptors the spec's
  builder produces for the three texts: the source's length bytes 0x14, 0x26, 0x16
  are right.
\<close>

theorem cdc_strings:
  "\<exists>ds. desc_walk (cdc_descriptor hs) = Some ds \<and>
     take 4 (drop 12 ds) =
       USB_LANGID_INIT USBD_LANGID_STRING #
       map string_desc [''CherryUSB'', ''CherryUSB CDC DEMO'', ''2022123456'']"
  by (cases hs) (simp_all add: desc_eval string_desc_def)

text \<open>
  C13: GET\_DESCRIPTOR(CONFIGURATION, 0) answered from the table returns
  \<^verbatim>\<open>USB_CONFIG_SIZE\<close> bytes that parse as one configuration descriptor containing the
  interface association, two interfaces, the four CDC functional descriptors and
  three endpoints; GET\_DESCRIPTOR(CONFIGURATION, i) fails for every other index.
\<close>

theorem get_config_descriptor:
  "(\<exists>c ds. usbd_get_descriptor (cdc_descriptor hs) 0x02 0 = Some c \<and> length c = nat USB_CONFIG_SIZE \<and>
     desc_walk (c @ [0]) = Some ds \<and>
     map (\<lambda>d. d ! 1) ds = [0x02, 0x0B, 0x04, 0x24, 0x24, 0x24, 0x24, 0x05, 0x04, 0x05, 0x05]) \<and>
   usbd_get_descriptor (cdc_descriptor hs) 0x02 (Suc i) = None"
proof
  show "\<exists>c ds. usbd_get_descriptor (cdc_descriptor hs) 0x02 0 = Some c \<and> length c = nat USB_CONFIG_SIZE \<and>
     desc_walk (c @ [0]) = Some ds \<and>
     map (\<lambda>d. d ! 1) ds = [0x02, 0x0B, 0x04, 0x24, 0x24, 0x24, 0x24, 0x05, 0x04, 0x05, 0x05]"
    by (cases hs) (simp_all add: desc_eval usbd_get_descriptor_def le16_def)
  obtain ds where w: "desc_walk (cdc_descriptor hs) = Some ds"
    and one: "desc_suffix ds 0x02 (Suc i) = None"
    by (cases hs) (simp_all add: desc_eval)
  from desc_walk_Some [OF w] obtain rest where ok: "list_all desc_ok ds"
    and eq: "cdc_descriptor hs = concat ds @ 0 # rest" by blast
  show "usbd_get_descriptor (cdc_descriptor hs) 0x02 (Suc i) = None"
    by (simp add: usbd_get_descriptor_def eq desc_find_suffix [OF ok] one)
qed

text \<open>
  C14: GET\_DESCRIPTOR(DEVICE\_QUALIFIER) is answered with the qualifier only in the
  high-speed build; the full-speed build has none, so the request fails, as USB 2.0
  requires of a full-speed-only device.
\<close>

theorem get_qualifier_descriptor:
  "usbd_get_descriptor (cdc_descriptor hs) USB_DESCRIPTOR_TYPE_DEVICE_QUALIFIER 0 =
     (if hs then Some [0x0a, 0x06, 0x00, 0x02, 0x02, 0x02, 0x01, 0x40, 0x01, 0x00] else None)"
  by (cases hs) (simp_all add: desc_eval usbd_get_descriptor_def)

text \<open>
  C19: GET\_DESCRIPTOR answered by CherryUSB's byte-level search of the program's
  table, for every request type and index: an error for the types the stack rejects
  (interface, endpoint, and every type above 7); for the configuration, the whole
  configuration block (the configuration descriptor and the descriptors under it, up
  to the first string descriptor) at index 0 and an error at every other index; for
  every other type, exactly the \<open>idx\<close>-th descriptor of that type of the parsed table,
  or an error when the table has fewer: the stack's lookup on
  \<^verbatim>\<open>cdc_descriptor\<close> refines the abstract lookup \<open>desc_lookup\<close>.
\<close>

theorem cdc_get_descriptor_refines:
  "\<exists>ds. desc_walk (cdc_descriptor hs) = Some ds \<and>
     (\<forall>ty idx. usbd_get_descriptor (cdc_descriptor hs) ty idx =
        (if ty = 0x04 \<or> ty = 0x05 \<or> 0x07 < ty then None
         else if ty = 0x02
         then map_option (\<lambda>c. concat (takeWhile (\<lambda>d. d ! 1 \<noteq> USB_DESCRIPTOR_TYPE_STRING) (drop 1 ds)))
                (desc_lookup ds 0x02 idx)
         else desc_lookup ds ty idx))"
proof -
  obtain ds where w: "desc_walk (cdc_descriptor hs) = Some ds"
    and cfg0: "usbd_get_descriptor (cdc_descriptor hs) 0x02 0 =
                 Some (concat (takeWhile (\<lambda>d. d ! 1 \<noteq> USB_DESCRIPTOR_TYPE_STRING) (drop 1 ds)))"
    and l2: "desc_lookup ds 0x02 0 = Some (ds ! 1)"
    and cfg: "\<And>i. desc_suffix ds 0x02 (Suc i) = None" and l2s: "\<And>i. desc_lookup ds 0x02 (Suc i) = None"
    and osc: "\<And>i. desc_suffix ds 0x07 i = None" and l7: "\<And>i. desc_lookup ds 0x07 i = None"
    by (cases hs) (simp_all add: desc_eval usbd_get_descriptor_def le16_def desc_lookup_def)
  from desc_walk_Some [OF w] obtain rest where ok: "list_all desc_ok ds"
    and eq: "cdc_descriptor hs = concat ds @ 0 # rest" by blast
  have "usbd_get_descriptor (cdc_descriptor hs) ty idx =
        (if ty = 0x04 \<or> ty = 0x05 \<or> 0x07 < ty then None
         else if ty = 0x02
         then map_option (\<lambda>c. concat (takeWhile (\<lambda>d. d ! 1 \<noteq> USB_DESCRIPTOR_TYPE_STRING) (drop 1 ds)))
                (desc_lookup ds 0x02 idx)
         else desc_lookup ds ty idx)" for ty idx
  proof (cases "ty = 0x04 \<or> ty = 0x05 \<or> 0x07 < ty")
    case True
    then show ?thesis by (auto simp: usbd_get_descriptor_def)
  next
    case rej: False
    show ?thesis
    proof (cases "ty = 0x02")
      case True
      then show ?thesis
        by (cases idx) (simp add: cfg0 l2, simp add: l2s eq get_descriptor_absent [OF ok cfg])
    next
      case n2: False
      show ?thesis
      proof (cases "ty = 0x07")
        case True
        then show ?thesis by (simp add: eq get_descriptor_absent [OF ok osc] l7)
      next
        case False
        with rej n2 show ?thesis by (simp only: eq get_descriptor_lookup [OF ok n2 False rej] if_False)
      qed
    qed
  qed
  with w show ?thesis by blast
qed

text \<open>
  C20: the request errors of the table: GET\_DESCRIPTOR(STRING, i) returns the
  language-ID descriptor and the three text strings for \<open>i < 4\<close> and fails for every
  larger index; requests for the other-speed configuration (type 7) and the BOS
  descriptor (type 0x0F) fail at every index, in both builds.
\<close>

theorem get_string_descriptor:
  "usbd_get_descriptor (cdc_descriptor hs) USB_DESCRIPTOR_TYPE_STRING i =
     (if i < 4 then Some ((USB_LANGID_INIT USBD_LANGID_STRING #
        map string_desc [''CherryUSB'', ''CherryUSB CDC DEMO'', ''2022123456'']) ! i) else None) \<and>
   usbd_get_descriptor (cdc_descriptor hs) 0x07 i = None \<and>
   usbd_get_descriptor (cdc_descriptor hs) 0x0F i = None"
proof -
  obtain ds where w: "desc_walk (cdc_descriptor hs) = Some ds"
    and str: "filter (\<lambda>d. d ! 1 = USB_DESCRIPTOR_TYPE_STRING) ds =
      USB_LANGID_INIT USBD_LANGID_STRING # map string_desc [''CherryUSB'', ''CherryUSB CDC DEMO'', ''2022123456'']"
    and osc: "desc_suffix ds 0x07 i = None"
    by (cases hs) (simp_all add: desc_eval string_desc_def)
  from desc_walk_Some [OF w] obtain rest where ok: "list_all desc_ok ds"
    and eq: "cdc_descriptor hs = concat ds @ 0 # rest" by blast
  have s3: "USB_DESCRIPTOR_TYPE_STRING \<noteq> 0x02" "USB_DESCRIPTOR_TYPE_STRING \<noteq> 0x07"
    "\<not> (USB_DESCRIPTOR_TYPE_STRING = 0x04 \<or> USB_DESCRIPTOR_TYPE_STRING = 0x05 \<or> 0x07 < USB_DESCRIPTOR_TYPE_STRING)"
    by (simp_all add: cdc_defs)
  have "usbd_get_descriptor (cdc_descriptor hs) 0x0F i = None"
    by (simp add: usbd_get_descriptor_def)
  with str show ?thesis
    by (simp add: eq get_descriptor_lookup [OF ok s3] get_descriptor_absent [OF ok osc] desc_lookup_def)
qed

text \<open>
  C27: the configuration block of the table passes a host's structural check in both
  builds: two interfaces numbered 0 and 1, the communication interface with its one
  interrupt endpoint and the data interface with its two bulk endpoints, three
  distinct endpoint addresses, and an interface association and call-management and
  union descriptors that name only these interfaces.
\<close>

theorem config_structure_consistent:
  "\<exists>ds. desc_walk (cdc_descriptor hs) = Some ds \<and>
     config_consistent (takeWhile (\<lambda>d. d ! 1 \<noteq> USB_DESCRIPTOR_TYPE_STRING) (drop 1 ds))"
  by (cases hs) (simp_all add: desc_eval config_consistent_def)

end
