(* ===== verification/Cdc_Acm.thy ===== *)
theory Cdc_Acm
  imports Descriptors
begin

text \<open>
  The CDC-ACM core of \<^verbatim>\<open>src/fw/src/setup/usb.c\<close> (lines 107--216): its global
  state (the two 2048-byte buffers, \<^verbatim>\<open>ep_tx_busy_flag\<close>, \<^verbatim>\<open>dtr_enable\<close>) as the
  record \<open>cdc_state\<close>; each handler as a function from the state to the new state and
  the list of calls it makes into the CherryUSB stack (\<open>usbd_call\<close>), in the order
  it makes them; the endpoint bindings \<^verbatim>\<open>cdc_out_ep\<close> and \<^verbatim>\<open>cdc_in_ep\<close>; and the
  application-side \<^verbatim>\<open>cdc_acm_data_send_with_dtr_test\<close> split at its statements,
  because the stack's interrupts may run between any two of them.
\<close>

section \<open>Calls into the stack\<close>

text \<open>Which global buffer a transfer points into (\<^verbatim>\<open>NULL\<close> for the zero-length packet).\<close>

datatype buf_ref = Read_Buffer | Write_Buffer | Null_Buffer

text \<open>The completion handler a \<^verbatim>\<open>struct usbd_endpoint\<close> names.\<close>

datatype ep_callback = Cb_Bulk_Out | Cb_Bulk_In

record usbd_endpoint =
  ep_addr :: u8
  ep_cb :: ep_callback

text \<open>
  The calls the source makes into CherryUSB: \<^verbatim>\<open>usbd_ep_start_read\<close>,
  \<^verbatim>\<open>usbd_ep_start_write\<close> (endpoint, buffer, length as \<^verbatim>\<open>uint32_t\<close>),
  \<^verbatim>\<open>usbd_desc_register\<close>, \<^verbatim>\<open>usbd_add_interface\<close>, \<^verbatim>\<open>usbd_add_endpoint\<close> and
  \<^verbatim>\<open>usbd_initialize\<close>.
\<close>

datatype usbd_call =
    Ep_Start_Read u8 buf_ref u32
  | Ep_Start_Write u8 buf_ref u32
  | Desc_Register bytes
  | Add_Interface nat
  | Add_Endpoint usbd_endpoint
  | Initialize

section \<open>Global state\<close>

record cdc_state =
  read_buffer :: bytes
  write_buffer :: bytes
  ep_tx_busy_flag :: bool
  dtr_enable :: u8

type_synonym cdc_result = "cdc_state \<times> usbd_call list"

text \<open>Static initialisation: both buffers in zeroed RAM, \<^verbatim>\<open>ep_tx_busy_flag = false\<close>,
  \<^verbatim>\<open>dtr_enable = 0\<close>.\<close>

definition cdc_globals_init :: cdc_state where
  "cdc_globals_init =
     \<lparr>read_buffer = replicate 2048 0, write_buffer = replicate 2048 0,
      ep_tx_busy_flag = False, dtr_enable = 0\<rparr>"

section \<open>Bus events\<close>

text \<open>CherryUSB's \<^verbatim>\<open>enum usbd_event_type\<close>, the events \<^verbatim>\<open>usbd_event_handler\<close> receives.\<close>

datatype usbd_event =
    USBD_EVENT_ERROR | USBD_EVENT_RESET | USBD_EVENT_SOF | USBD_EVENT_CONNECTED
  | USBD_EVENT_DISCONNECTED | USBD_EVENT_RESUME | USBD_EVENT_SUSPEND
  | USBD_EVENT_CONFIGURED | USBD_EVENT_SET_INTERFACE | USBD_EVENT_SET_REMOTE_WAKEUP
  | USBD_EVENT_CLR_REMOTE_WAKEUP | USBD_EVENT_INIT | USBD_EVENT_DEINIT | USBD_EVENT_UNKNOWN

definition usbd_event_handler :: "usbd_event \<Rightarrow> cdc_state \<Rightarrow> cdc_result" where
  "usbd_event_handler event s =
     (case event of
        USBD_EVENT_RESET \<Rightarrow> (s, [])
      | USBD_EVENT_CONNECTED \<Rightarrow> (s, [])
      | USBD_EVENT_DISCONNECTED \<Rightarrow> (s, [])
      | USBD_EVENT_RESUME \<Rightarrow> (s, [])
      | USBD_EVENT_SUSPEND \<Rightarrow> (s, [])
      | USBD_EVENT_CONFIGURED \<Rightarrow> (s, [Ep_Start_Read CDC_OUT_EP Read_Buffer 2048])
      | USBD_EVENT_SET_REMOTE_WAKEUP \<Rightarrow> (s, [])
      | USBD_EVENT_CLR_REMOTE_WAKEUP \<Rightarrow> (s, [])
      | _ \<Rightarrow> (s, []))"

section \<open>Bulk endpoint completions\<close>

text \<open>OUT completion: log the count, re-arm a full-size read into \<^verbatim>\<open>read_buffer\<close>.\<close>

definition usbd_cdc_acm_bulk_out :: "u8 \<Rightarrow> u32 \<Rightarrow> cdc_state \<Rightarrow> cdc_result" where
  "usbd_cdc_acm_bulk_out ep nbytes s = (s, [Ep_Start_Read CDC_OUT_EP Read_Buffer 2048])"

text \<open>
  IN completion: \<^verbatim>\<open>(nbytes % CDC_MAX_MPS) == 0 && nbytes\<close> on \<^verbatim>\<open>uint32_t\<close> (the
  \<^verbatim>\<open>int\<close> constant converted to unsigned) sends a zero-length packet; otherwise the
  transfer is over and the busy flag is cleared.
\<close>

definition usbd_cdc_acm_bulk_in :: "bool \<Rightarrow> u8 \<Rightarrow> u32 \<Rightarrow> cdc_state \<Rightarrow> cdc_result" where
  "usbd_cdc_acm_bulk_in hs ep nbytes s =
     (if nbytes mod word_of_int (CDC_MAX_MPS hs) = 0 \<and> nbytes \<noteq> 0
      then (s, [Ep_Start_Write CDC_IN_EP Null_Buffer 0])
      else (s\<lparr>ep_tx_busy_flag := False\<rparr>, []))"

section \<open>Endpoint bindings and initialisation\<close>

definition cdc_out_ep :: usbd_endpoint where
  "cdc_out_ep = \<lparr>ep_addr = CDC_OUT_EP, ep_cb = Cb_Bulk_Out\<rparr>"

definition cdc_in_ep :: usbd_endpoint where
  "cdc_in_ep = \<lparr>ep_addr = CDC_IN_EP, ep_cb = Cb_Bulk_In\<rparr>"

text \<open>The stack calls the handler an endpoint structure names.\<close>

fun usbd_ep_callback :: "bool \<Rightarrow> ep_callback \<Rightarrow> u8 \<Rightarrow> u32 \<Rightarrow> cdc_state \<Rightarrow> cdc_result" where
  "usbd_ep_callback hs Cb_Bulk_Out ep n s = usbd_cdc_acm_bulk_out ep n s"
| "usbd_ep_callback hs Cb_Bulk_In ep n s = usbd_cdc_acm_bulk_in hs ep n s"

text \<open>
  \<^verbatim>\<open>cdc_acm_init\<close>: fill \<^verbatim>\<open>write_buffer\<close> with ten ASCII digits and 2038 bytes
  \<^verbatim>\<open>'a'\<close>, then register the descriptor table, the two interfaces
  (\<^verbatim>\<open>intf0\<close>, \<^verbatim>\<open>intf1\<close>), the two endpoints and start the stack.
\<close>

definition cdc_acm_init_data :: bytes where
  "cdc_acm_init_data = [0x31, 0x32, 0x33, 0x34, 0x35, 0x36, 0x37, 0x38, 0x39, 0x30]"

definition cdc_acm_init :: "bool \<Rightarrow> cdc_state \<Rightarrow> cdc_result" where
  "cdc_acm_init hs s =
     (let wb = memcpy_at (write_buffer s) 0 cdc_acm_init_data;
          wb' = memset_at wb 10 (chr CHR ''a'') 2038
      in (s\<lparr>write_buffer := wb'\<rparr>,
          [Desc_Register (cdc_descriptor hs), Add_Interface 0, Add_Interface 1,
           Add_Endpoint cdc_out_ep, Add_Endpoint cdc_in_ep, Initialize]))"

section \<open>DTR and the application's send\<close>

definition usbd_cdc_acm_set_dtr :: "u8 \<Rightarrow> bool \<Rightarrow> cdc_state \<Rightarrow> cdc_state" where
  "usbd_cdc_acm_set_dtr intf dtr s =
     (if dtr then s\<lparr>dtr_enable := 1\<rparr> else s\<lparr>dtr_enable := 0\<rparr>)"

text \<open>
  \<^verbatim>\<open>cdc_acm_data_send_with_dtr_test\<close> runs in thread context; interrupts run between
  its statements. Its program counter: \<open>Send_Idle\<close> (not in the function; a step
  is a call and the test of \<^verbatim>\<open>dtr_enable\<close>, returning at once when it is 0),
  \<open>Send_Set_Busy\<close> (line 211), \<open>Send_Start_Write\<close> (line 212), \<open>Send_Spin\<close>
  (the loop of lines 213--214: one test of the volatile flag per step).
\<close>

datatype send_pc = Send_Idle | Send_Set_Busy | Send_Start_Write | Send_Spin

fun cdc_acm_data_send_with_dtr_test :: "send_pc \<Rightarrow> cdc_state \<Rightarrow> send_pc \<times> cdc_result" where
  "cdc_acm_data_send_with_dtr_test Send_Idle s =
     (if dtr_enable s \<noteq> 0 then (Send_Set_Busy, s, []) else (Send_Idle, s, []))"
| "cdc_acm_data_send_with_dtr_test Send_Set_Busy s =
     (Send_Start_Write, s\<lparr>ep_tx_busy_flag := True\<rparr>, [])"
| "cdc_acm_data_send_with_dtr_test Send_Start_Write s =
     (Send_Spin, s, [Ep_Start_Write CDC_IN_EP Write_Buffer 2048])"
| "cdc_acm_data_send_with_dtr_test Send_Spin s =
     (if ep_tx_busy_flag s then (Send_Spin, s, []) else (Send_Idle, s, []))"

section \<open>Properties of the handlers\<close>

text \<open>The \<^verbatim>\<open>uint32_t\<close> remainder by the packet size is the remainder of the byte count.\<close>

lemma mod_mps_eq_0:
  "((n::u32) mod word_of_int (CDC_MAX_MPS hs) = 0) = (unat n mod nat (CDC_MAX_MPS hs) = 0)"
  by (cases hs) (simp_all add: CDC_MAX_MPS_def unat_mod flip: unat_eq_zero)

lemma CDC_MAX_MPS_pos: "0 < nat (CDC_MAX_MPS hs)"
  by (simp add: CDC_MAX_MPS_def)

text \<open>The ZLP test of the IN-completion handler, read on the byte count as a number.\<close>

lemma bulk_in_unat:
  "usbd_cdc_acm_bulk_in hs ep n s =
     (if 0 < unat n \<and> unat n mod nat (CDC_MAX_MPS hs) = 0
      then (s, [Ep_Start_Write CDC_IN_EP Null_Buffer 0])
      else (s\<lparr>ep_tx_busy_flag := False\<rparr>, []))"
  by (simp add: usbd_cdc_acm_bulk_in_def mod_mps_eq_0 unat_gt_0)

lemma bulk_in_state:
  "fst (usbd_cdc_acm_bulk_in hs ep n s) =
     (if n mod word_of_int (CDC_MAX_MPS hs) = 0 \<and> n \<noteq> 0 then s else s\<lparr>ep_tx_busy_flag := False\<rparr>)"
  by (simp add: usbd_cdc_acm_bulk_in_def)

text \<open>Of the bus events only \<^verbatim>\<open>USBD_EVENT_CONFIGURED\<close> has an effect: the first read.\<close>

lemma usbd_event_handler_eq:
  "usbd_event_handler ev s =
     (s, if ev = USBD_EVENT_CONFIGURED then [Ep_Start_Read CDC_OUT_EP Read_Buffer 2048] else [])"
  by (cases ev) (simp_all add: usbd_event_handler_def)

lemma usbd_ep_callback_state:
  "fst (usbd_ep_callback hs cb ep n s) = s \<or>
   fst (usbd_ep_callback hs cb ep n s) = s\<lparr>ep_tx_busy_flag := False\<rparr>"
  by (cases cb) (simp_all add: usbd_cdc_acm_bulk_out_def usbd_cdc_acm_bulk_in_def)

lemma set_dtr_range: "dtr_enable (usbd_cdc_acm_set_dtr intf dtr s) \<in> {0, 1}"
  by (simp add: usbd_cdc_acm_set_dtr_def)

text \<open>
  C8: whatever a 2048-byte \<^verbatim>\<open>write_buffer\<close> held before, \<^verbatim>\<open>cdc_acm_init\<close> leaves it
  holding the ten ASCII digits 1234567890 followed by 2038 bytes \<^verbatim>\<open>'a'\<close>, still
  2048 bytes long.
\<close>

theorem cdc_acm_init_write_buffer:
  assumes "length (write_buffer s) = 2048"
  shows "write_buffer (fst (cdc_acm_init hs s)) =
           map chr ''1234567890'' @ replicate 2038 (chr CHR ''a'')"
  using assms by (simp add: cdc_acm_init_def memcpy_at_def memset_at_def cdc_acm_init_data_def)

theorem cdc_acm_init_write_buffer_witness:
  "length (write_buffer cdc_globals_init) = 2048 \<and>
   write_buffer (fst (cdc_acm_init False cdc_globals_init)) =
     map chr ''1234567890'' @ replicate 2038 (chr CHR ''a'')"
proof -
  have h: "length (write_buffer cdc_globals_init) = 2048"
    by (simp add: cdc_globals_init_def)
  show ?thesis using h cdc_acm_init_write_buffer [OF h, of False] by simp
qed

end
