(* ===== verification/Usb_System.thy ===== *)
theory Usb_System
  imports Cdc_Acm
begin

text \<open>
  The CDC-ACM core running against the CherryUSB device stack. The stack is
  not under \<^verbatim>\<open>src/\<close>; it is modelled from the interface the spec describes
  (section 6): it records the transfer armed on each endpoint
  (\<^verbatim>\<open>usbd_ep_start_read\<close>/\<^verbatim>\<open>usbd_ep_start_write\<close>), reports each completion to
  the handler of the endpoint registered for it, delivers bus events, and drops
  the armed transfers on bus reset and disconnect. Ghost flags \<open>write_overlap\<close> and
  \<open>read_overlap\<close> record whether a write, or a read, was ever submitted on an
  endpoint that still had a transfer outstanding.

  A system step is one interrupt handler run to completion or one statement of
  the application's send; \<open>reach\<close> is the set of states reachable from start-up
  by any interleaving of them. The invariant \<open>sys_inv\<close> ties the busy flag to the
  send's program counter and to the outstanding IN transfer.
\<close>

section \<open>The device stack\<close>

record usbd_stack =
  xfers :: "u8 \<Rightarrow> (buf_ref \<times> u32) option"
  write_overlap :: bool
  read_overlap :: bool
  registered_desc :: "bytes option"
  interfaces :: "nat list"
  endpoints :: "usbd_endpoint list"
  initialized :: bool
  configured :: bool

definition stack_init :: usbd_stack where
  "stack_init =
     \<lparr>xfers = Map.empty, write_overlap = False, read_overlap = False, registered_desc = None, interfaces = [],
      endpoints = [], initialized = False, configured = False\<rparr>"

fun stack_call :: "usbd_stack \<Rightarrow> usbd_call \<Rightarrow> usbd_stack" where
  "stack_call st (Ep_Start_Read ep b n) =
     st\<lparr>read_overlap := (read_overlap st \<or> xfers st ep \<noteq> None),
        xfers := (xfers st)(ep \<mapsto> (b, n))\<rparr>"
| "stack_call st (Ep_Start_Write ep b n) =
     st\<lparr>write_overlap := (write_overlap st \<or> xfers st ep \<noteq> None),
        xfers := (xfers st)(ep \<mapsto> (b, n))\<rparr>"
| "stack_call st (Desc_Register d) = st\<lparr>registered_desc := Some d\<rparr>"
| "stack_call st (Add_Interface i) = st\<lparr>interfaces := interfaces st @ [i]\<rparr>"
| "stack_call st (Add_Endpoint e) = st\<lparr>endpoints := endpoints st @ [e]\<rparr>"
| "stack_call st Initialize = st\<lparr>initialized := True\<rparr>"

text \<open>What the stack does itself on a bus event, before it notifies the class driver.\<close>

definition stack_bus :: "usbd_event \<Rightarrow> usbd_stack \<Rightarrow> usbd_stack" where
  "stack_bus ev st =
     (if ev = USBD_EVENT_RESET \<or> ev = USBD_EVENT_DISCONNECTED
      then st\<lparr>xfers := Map.empty, configured := False\<rparr>
      else if ev = USBD_EVENT_CONFIGURED then st\<lparr>configured := True\<rparr>
      else st)"

definition ep_lookup :: "usbd_stack \<Rightarrow> u8 \<Rightarrow> ep_callback option" where
  "ep_lookup st a = map_option ep_cb (find (\<lambda>e. ep_addr e = a) (endpoints st))"

section \<open>The system\<close>

record sys =
  cdc :: cdc_state
  stk :: usbd_stack
  app :: send_pc
  calls :: "usbd_call list"

text \<open>A handler's result: its new globals, and its calls performed by the stack in order.\<close>

definition emit :: "sys \<Rightarrow> cdc_result \<Rightarrow> sys" where
  "emit s r = s\<lparr>cdc := fst r, stk := foldl stack_call (stk s) (snd r), calls := calls s @ snd r\<rparr>"

text \<open>The stack's DMA of received bytes into the buffer a read was armed with.\<close>

definition store_buf :: "buf_ref \<Rightarrow> bytes \<Rightarrow> cdc_state \<Rightarrow> cdc_state" where
  "store_buf b d c =
     (case b of
        Read_Buffer \<Rightarrow> c\<lparr>read_buffer := memcpy_at (read_buffer c) 0 d\<rparr>
      | Write_Buffer \<Rightarrow> c\<lparr>write_buffer := memcpy_at (write_buffer c) 0 d\<rparr>
      | Null_Buffer \<Rightarrow> c)"

text \<open>A transfer on \<open>ep\<close> ends with \<open>n\<close> bytes: the endpoint is free again, then the
  handler registered for it runs.\<close>

definition complete :: "bool \<Rightarrow> sys \<Rightarrow> u8 \<Rightarrow> u32 \<Rightarrow> sys" where
  "complete hs s ep n =
     (let s' = s\<lparr>stk := (stk s)\<lparr>xfers := (xfers (stk s))(ep := None)\<rparr>\<rparr>
      in case ep_lookup (stk s) ep of
           None \<Rightarrow> s'
         | Some cb \<Rightarrow> emit s' (usbd_ep_callback hs cb ep n (cdc s')))"

datatype sys_event =
    Bus usbd_event
  | Set_Dtr bool
  | Out_Done bytes
  | In_Done
  | App_Step

fun sys_step :: "bool \<Rightarrow> sys \<Rightarrow> sys_event \<Rightarrow> sys option" where
  "sys_step hs s (Bus ev) =
     Some (emit (s\<lparr>stk := stack_bus ev (stk s)\<rparr>) (usbd_event_handler ev (cdc s)))"
| "sys_step hs s (Set_Dtr b) = Some (s\<lparr>cdc := usbd_cdc_acm_set_dtr 0 b (cdc s)\<rparr>)"
| "sys_step hs s (Out_Done d) =
     (case xfers (stk s) CDC_OUT_EP of
        None \<Rightarrow> None
      | Some (b, len) \<Rightarrow>
          if length d \<le> unat len
          then Some (complete hs (s\<lparr>cdc := store_buf b d (cdc s)\<rparr>) CDC_OUT_EP (of_nat (length d)))
          else None)"
| "sys_step hs s In_Done =
     (case xfers (stk s) CDC_IN_EP of
        None \<Rightarrow> None
      | Some (b, len) \<Rightarrow> Some (complete hs s CDC_IN_EP len))"
| "sys_step hs s App_Step =
     (let (pc, r) = cdc_acm_data_send_with_dtr_test (app s) (cdc s)
      in Some (emit (s\<lparr>app := pc\<rparr>) r))"

fun sys_run :: "bool \<Rightarrow> sys \<Rightarrow> sys_event list \<Rightarrow> sys option" where
  "sys_run hs s [] = Some s"
| "sys_run hs s (e # es) = (case sys_step hs s e of None \<Rightarrow> None | Some s' \<Rightarrow> sys_run hs s' es)"

text \<open>Start-up: static initialisation, then \<^verbatim>\<open>cdc_acm_init\<close>.\<close>

definition sys_init :: "bool \<Rightarrow> sys" where
  "sys_init hs =
     emit \<lparr>cdc = cdc_globals_init, stk = stack_init, app = Send_Idle, calls = []\<rparr>
          (cdc_acm_init hs cdc_globals_init)"

inductive reach :: "bool \<Rightarrow> sys \<Rightarrow> bool" for hs where
  init: "reach hs (sys_init hs)"
| step: "reach hs s \<Longrightarrow> sys_step hs s e = Some s' \<Longrightarrow> reach hs s'"

section \<open>The invariant\<close>

definition sys_inv :: "sys \<Rightarrow> bool" where
  "sys_inv s \<longleftrightarrow>
     (xfers (stk s) CDC_IN_EP \<noteq> None \<longrightarrow> app s = Send_Spin \<and> ep_tx_busy_flag (cdc s)) \<and>
     (app s = Send_Idle \<or> app s = Send_Set_Busy \<longrightarrow> \<not> ep_tx_busy_flag (cdc s)) \<and>
     (app s = Send_Start_Write \<longrightarrow> ep_tx_busy_flag (cdc s)) \<and>
     \<not> write_overlap (stk s) \<and>
     endpoints (stk s) = [cdc_out_ep, cdc_in_ep] \<and>
     xfers (stk s) CDC_OUT_EP \<in> {None, Some (Read_Buffer, 2048)} \<and>
     (xfers (stk s) CDC_OUT_EP \<noteq> None \<longleftrightarrow> configured (stk s)) \<and>
     xfers (stk s) CDC_IN_EP \<in> {None, Some (Write_Buffer, 2048), Some (Null_Buffer, 0)} \<and>
     dtr_enable (cdc s) \<in> {0, 1} \<and>
     length (read_buffer (cdc s)) = 2048 \<and> length (write_buffer (cdc s)) = 2048"

text \<open>A send that can never return: spinning on the busy flag with no IN transfer left
  whose completion could clear it.\<close>

definition send_stuck :: "sys \<Rightarrow> bool" where
  "send_stuck s \<longleftrightarrow>
     sys_inv s \<and> app s = Send_Spin \<and> ep_tx_busy_flag (cdc s) \<and> xfers (stk s) CDC_IN_EP = None"

text \<open>The trace of the IN endpoint: the buffers and lengths of the writes submitted on
  it, in order, read off the stack-call trace; a complete transfer of the payload is the
  payload followed by its zero-length packet.\<close>

definition in_writes :: "usbd_call list \<Rightarrow> (buf_ref \<times> u32) list" where
  "in_writes cs =
     concat (map (\<lambda>c. case c of Ep_Start_Write ep b n \<Rightarrow> if ep = CDC_IN_EP then [(b, n)] else [] | _ \<Rightarrow> []) cs)"

abbreviation in_transfer :: "(buf_ref \<times> u32) list" where
  "in_transfer \<equiv> [(Write_Buffer, 2048), (Null_Buffer, 0)]"

definition in_trace_inv :: "sys \<Rightarrow> bool" where
  "in_trace_inv s \<longleftrightarrow>
     (\<exists>k. in_writes (calls s) = concat (replicate k in_transfer) \<and>
            xfers (stk s) CDC_IN_EP \<noteq> Some (Write_Buffer, 2048)
        \<or> in_writes (calls s) = concat (replicate k in_transfer) @ [(Write_Buffer, 2048)] \<and>
            app s = Send_Spin \<and> ep_tx_busy_flag (cdc s) \<and> xfers (stk s) CDC_IN_EP \<noteq> Some (Null_Buffer, 0))"

section \<open>The invariant holds in every reachable state\<close>

lemma ep_lookup_cdc:
  assumes "endpoints st = [cdc_out_ep, cdc_in_ep]"
  shows "ep_lookup st CDC_OUT_EP = Some Cb_Bulk_Out" and "ep_lookup st CDC_IN_EP = Some Cb_Bulk_In"
  using assms by (simp_all add: ep_lookup_def cdc_out_ep_def cdc_in_ep_def cdc_defs)

lemma ep_lookup_xfers [simp]:
  "ep_lookup (st\<lparr>xfers := x\<rparr>) a = ep_lookup st a"
  "ep_lookup (st\<lparr>write_overlap := w, xfers := x\<rparr>) a = ep_lookup st a"
  by (simp_all add: ep_lookup_def)

lemma CDC_EPs_distinct [simp]: "CDC_OUT_EP \<noteq> CDC_IN_EP" "CDC_IN_EP \<noteq> CDC_OUT_EP"
  by (simp_all add: cdc_defs)

lemma sys_inv_init: "sys_inv (sys_init hs)"
  by (simp add: sys_inv_def sys_init_def emit_def cdc_acm_init_def stack_init_def
      cdc_globals_init_def memcpy_at_def memset_at_def cdc_acm_init_data_def)

lemma sys_inv_dtr: "sys_inv s \<Longrightarrow> sys_step hs s (Set_Dtr b) = Some s' \<Longrightarrow> sys_inv s'"
  unfolding sys_inv_def by (cases b) (clarsimp simp: usbd_cdc_acm_set_dtr_def)+

lemma sys_inv_bus: "sys_inv s \<Longrightarrow> sys_step hs s (Bus ev) = Some s' \<Longrightarrow> sys_inv s'"
  unfolding sys_inv_def
  by (cases "ev = USBD_EVENT_CONFIGURED"; cases "ev = USBD_EVENT_RESET \<or> ev = USBD_EVENT_DISCONNECTED")
     (clarsimp simp: emit_def usbd_event_handler_eq stack_bus_def)+

lemma sys_inv_out: "sys_inv s \<Longrightarrow> sys_step hs s (Out_Done d) = Some s' \<Longrightarrow> sys_inv s'"
  unfolding sys_inv_def
  by (clarsimp simp: complete_def emit_def store_buf_def ep_lookup_cdc usbd_cdc_acm_bulk_out_def
      split: option.splits if_splits)

lemma sys_inv_in: "sys_inv s \<Longrightarrow> sys_step hs s In_Done = Some s' \<Longrightarrow> sys_inv s'"
  unfolding sys_inv_def
  by (cases hs; clarsimp simp: complete_def emit_def ep_lookup_cdc split: option.splits;
      elim disjE; clarsimp simp: usbd_cdc_acm_bulk_in_def CDC_MAX_MPS_def Let_def)

lemma sys_inv_app: "sys_inv s \<Longrightarrow> sys_step hs s App_Step = Some s' \<Longrightarrow> sys_inv s'"
  unfolding sys_inv_def by (cases "app s") (clarsimp simp: emit_def split: if_splits)+

lemmas sys_inv_steps = sys_inv_bus sys_inv_dtr sys_inv_out sys_inv_in sys_inv_app

lemma sys_step_inv:
  assumes "sys_inv s" and "sys_step hs s e = Some s'"
  shows "sys_inv s'"
  using assms by (cases e) (blast intro: sys_inv_steps)+

lemma reach_inv: "reach hs s \<Longrightarrow> sys_inv s"
proof (induction rule: reach.induct)
  case init
  show ?case by (rule sys_inv_init)
next
  case (step s e s')
  then show ?case by (blast intro: sys_step_inv)
qed

lemma sys_run_reach: "reach hs s \<Longrightarrow> sys_run hs s es = Some s' \<Longrightarrow> reach hs s'"
proof (induction es arbitrary: s)
  case Nil
  then show ?case by simp
next
  case (Cons e es)
  then obtain t where t: "sys_step hs s e = Some t" and r: "sys_run hs t es = Some s'"
    by (auto split: option.splits)
  from Cons.prems(1) t have "reach hs t" by (rule reach.step)
  from this r show ?case by (rule Cons.IH)
qed
lemmas sys_eval = sys_init_def emit_def cdc_acm_init_def stack_init_def cdc_globals_init_def
  complete_def ep_lookup_def store_buf_def usbd_event_handler_eq stack_bus_def
  usbd_cdc_acm_set_dtr_def usbd_cdc_acm_bulk_in_def usbd_cdc_acm_bulk_out_def
  cdc_out_ep_def cdc_in_ep_def CDC_MAX_MPS_def Let_def

section \<open>Transfers, completion and the stuck send\<close>

lemma in_done_zlp:
  assumes "sys_inv s" and "xfers (stk s) CDC_IN_EP = Some (Null_Buffer, 0)"
  shows "\<exists>t. sys_step hs s In_Done = Some t \<and> app t = app s \<and> \<not> ep_tx_busy_flag (cdc t)"
  using assms by (simp add: sys_inv_def complete_def emit_def ep_lookup_cdc usbd_cdc_acm_bulk_in_def)

lemma in_done_full:
  assumes "sys_inv s" and "xfers (stk s) CDC_IN_EP = Some (Write_Buffer, 2048)"
  shows "\<exists>t. sys_step hs s In_Done = Some t \<and> sys_inv t \<and> xfers (stk t) CDC_IN_EP = Some (Null_Buffer, 0)"
proof -
  obtain t where t: "sys_step hs s In_Done = Some t"
    using assms(2) by simp
  have "xfers (stk t) CDC_IN_EP = Some (Null_Buffer, 0)"
    using assms t by (cases hs) (clarsimp simp: sys_inv_def complete_def emit_def ep_lookup_cdc
        usbd_cdc_acm_bulk_in_def CDC_MAX_MPS_def)+
  with t assms(1) show ?thesis by (blast intro: sys_inv_in)
qed

lemma spin_exit:
  assumes "app s = Send_Spin" and "\<not> ep_tx_busy_flag (cdc s)"
  shows "\<exists>t. sys_step hs s App_Step = Some t \<and> app t = Send_Idle \<and> \<not> ep_tx_busy_flag (cdc t)"
  using assms by (simp add: emit_def)

lemma send_stuck_step:
  assumes "send_stuck s" and "sys_step hs s e = Some s'"
  shows "send_stuck s'"
proof -
  from assms have inv': "sys_inv s'"
    by (auto simp: send_stuck_def intro: sys_step_inv)
  from assms have inv: "sys_inv s" and spin: "app s = Send_Spin"
    and busy: "ep_tx_busy_flag (cdc s)" and idle: "xfers (stk s) CDC_IN_EP = None"
    by (simp_all add: send_stuck_def)
  show ?thesis
  proof (cases e)
    case (Bus ev)
    with assms(2) spin busy idle show ?thesis
      by (clarsimp simp: send_stuck_def inv' emit_def usbd_event_handler_eq stack_bus_def)
  next
    case (Set_Dtr b)
    with assms(2) spin busy idle show ?thesis
      by (clarsimp simp: send_stuck_def inv' usbd_cdc_acm_set_dtr_def)
  next
    case (Out_Done d)
    with assms(2) inv spin busy idle show ?thesis
      by (clarsimp simp: send_stuck_def inv' sys_inv_def complete_def emit_def store_buf_def
          ep_lookup_cdc usbd_cdc_acm_bulk_out_def split: option.splits if_splits)
  next
    case In_Done
    with assms(2) idle show ?thesis by simp
  next
    case App_Step
    with assms(2) spin busy idle show ?thesis
      by (clarsimp simp: send_stuck_def inv' emit_def)
  qed
qed

lemma send_stuck_run: "send_stuck s \<Longrightarrow> sys_run hs s es = Some s' \<Longrightarrow> send_stuck s'"
proof (induction es arbitrary: s)
  case Nil
  then show ?case by simp
next
  case (Cons e es)
  then obtain t where t: "sys_step hs s e = Some t" and r: "sys_run hs t es = Some s'"
    by (auto split: option.splits)
  from Cons.prems(1) t have "send_stuck t" by (rule send_stuck_step)
  from this r show ?case by (rule Cons.IH)
qed

text \<open>Bus events other than configuration leave the ghost read flag; configuration
  leaves the armed transfers.\<close>

lemma stack_bus_read_overlap [simp]: "read_overlap (stack_bus ev st) = read_overlap st"
  by (simp add: stack_bus_def)

lemma stack_bus_configured_xfers: "xfers (stack_bus USBD_EVENT_CONFIGURED st) = xfers st"
  by (simp add: stack_bus_def)

text \<open>From a spinning send with an IN transfer outstanding, the host's completions
  bring the send back: at most two completions and one more test of the flag.\<close>

lemma spin_run_idle:
  assumes inv: "sys_inv s" and "app s = Send_Spin" and "xfers (stk s) CDC_IN_EP \<noteq> None"
  shows "\<exists>es s'. set es \<subseteq> {In_Done, App_Step} \<and> length es \<le> 3 \<and>
           sys_run hs s es = Some s' \<and> app s' = Send_Idle \<and> \<not> ep_tx_busy_flag (cdc s')"
proof -
  from inv have cases: "xfers (stk s) CDC_IN_EP = Some (Write_Buffer, 2048) \<or>
      xfers (stk s) CDC_IN_EP = Some (Null_Buffer, 0)"
    using assms(3) by (auto simp: sys_inv_def)
  have last: "\<exists>s'. sys_run hs t [In_Done, App_Step] = Some s' \<and> app s' = Send_Idle \<and>
      \<not> ep_tx_busy_flag (cdc s')"
    if inv_t: "sys_inv t" and spin_t: "app t = Send_Spin"
      and zlp_t: "xfers (stk t) CDC_IN_EP = Some (Null_Buffer, 0)" for t
  proof -
    obtain u where u: "sys_step hs t In_Done = Some u" "app u = Send_Spin" "\<not> ep_tx_busy_flag (cdc u)"
      using in_done_zlp [OF inv_t zlp_t] spin_t by auto
    obtain v where "sys_step hs u App_Step = Some v" "app v = Send_Idle" "\<not> ep_tx_busy_flag (cdc v)"
      using spin_exit [OF u(2,3)] by blast
    with u show ?thesis by simp
  qed
  from cases show ?thesis
  proof
    assume full: "xfers (stk s) CDC_IN_EP = Some (Write_Buffer, 2048)"
    obtain t where t: "sys_step hs s In_Done = Some t" "sys_inv t"
        "xfers (stk t) CDC_IN_EP = Some (Null_Buffer, 0)"
      using in_done_full [OF inv full] by blast
    then have "app t = Send_Spin" by (simp add: sys_inv_def)
    with t last obtain s' where "sys_run hs t [In_Done, App_Step] = Some s'"
        "app s' = Send_Idle" "\<not> ep_tx_busy_flag (cdc s')" by blast
    with t(1) show ?thesis
      by (intro exI [of _ "[In_Done, In_Done, App_Step]"] exI [of _ s']) simp
  next
    assume zlp: "xfers (stk s) CDC_IN_EP = Some (Null_Buffer, 0)"
    from last [OF inv assms(2) zlp] obtain s' where "sys_run hs s [In_Done, App_Step] = Some s'"
        "app s' = Send_Idle" "\<not> ep_tx_busy_flag (cdc s')" by blast
    then show ?thesis
      by (intro exI [of _ "[In_Done, App_Step]"] exI [of _ s']) simp
  qed
qed

section \<open>The trace of IN writes\<close>

lemma in_writes_append [simp]: "in_writes (xs @ ys) = in_writes xs @ in_writes ys"
  by (simp add: in_writes_def)

lemma in_writes_simps [simp]:
  "in_writes [] = []"
  "in_writes [Ep_Start_Read ep b n] = []"
  "in_writes [Ep_Start_Write ep b n] = (if ep = CDC_IN_EP then [(b, n)] else [])"
  by (simp_all add: in_writes_def)

lemma concat_replicate_snoc: "concat (replicate k xs) @ xs = concat (replicate (Suc k) xs)"
  by (induction k) auto

lemma in_trace_inv_init: "in_trace_inv (sys_init hs)"
  unfolding in_trace_inv_def
  by (rule exI [of _ 0]) (simp add: sys_init_def emit_def cdc_acm_init_def stack_init_def in_writes_def)

lemma bulk_in_2048:
  "usbd_cdc_acm_bulk_in hs CDC_IN_EP 2048 c = (c, [Ep_Start_Write CDC_IN_EP Null_Buffer 0])"
  by (cases hs) (simp_all add: usbd_cdc_acm_bulk_in_def CDC_MAX_MPS_def)

lemma in_trace_inv_frame:
  assumes "in_trace_inv s" and "in_writes (calls s') = in_writes (calls s)"
    and "app s' = app s" and "ep_tx_busy_flag (cdc s') = ep_tx_busy_flag (cdc s)"
    and "xfers (stk s') CDC_IN_EP \<in> {xfers (stk s) CDC_IN_EP, None}"
  shows "in_trace_inv s'"
  using assms unfolding in_trace_inv_def by (elim exE disjE) auto

lemma store_buf_busy [simp]: "ep_tx_busy_flag (store_buf b d c) = ep_tx_busy_flag c"
  by (cases b) (simp_all add: store_buf_def)

lemma in_trace_inv_step:
  assumes inv: "sys_inv s" and tr: "in_trace_inv s" and st: "sys_step hs s e = Some s'"
  shows "in_trace_inv s'"
proof -
  from inv have eps: "endpoints (stk s) = [cdc_out_ep, cdc_in_ep]"
    and inx: "xfers (stk s) CDC_IN_EP \<in> {None, Some (Write_Buffer, 2048), Some (Null_Buffer, 0)}"
    and busy: "app s = Send_Start_Write \<longrightarrow> ep_tx_busy_flag (cdc s)"
    by (simp_all add: sys_inv_def)
  from tr obtain k where
    k: "in_writes (calls s) = concat (replicate k in_transfer) \<and> xfers (stk s) CDC_IN_EP \<noteq> Some (Write_Buffer, 2048)
      \<or> in_writes (calls s) = concat (replicate k in_transfer) @ [(Write_Buffer, 2048)] \<and>
        app s = Send_Spin \<and> ep_tx_busy_flag (cdc s) \<and> xfers (stk s) CDC_IN_EP \<noteq> Some (Null_Buffer, 0)"
    by (auto simp: in_trace_inv_def)
  show ?thesis
  proof (cases e)
    case (Bus ev)
    with st show ?thesis
      by (intro in_trace_inv_frame [OF tr];
          cases "ev = USBD_EVENT_CONFIGURED"; cases "ev = USBD_EVENT_RESET \<or> ev = USBD_EVENT_DISCONNECTED")
         (auto simp: emit_def usbd_event_handler_eq stack_bus_def)
  next
    case (Set_Dtr b)
    with st show ?thesis
      by (intro in_trace_inv_frame [OF tr]) (auto simp: usbd_cdc_acm_set_dtr_def split: if_splits)
  next
    case (Out_Done d)
    with st obtain b len where
      s': "s' = complete hs (s\<lparr>cdc := store_buf b d (cdc s)\<rparr>) CDC_OUT_EP (of_nat (length d))"
      by (auto split: option.splits if_splits)
    show ?thesis
      by (rule in_trace_inv_frame [OF tr])
         (simp_all add: s' complete_def emit_def ep_lookup_cdc [OF eps] usbd_cdc_acm_bulk_out_def)
  next
    case In_Done
    from inx st In_Done consider (full) "xfers (stk s) CDC_IN_EP = Some (Write_Buffer, 2048)"
      | (zlp) "xfers (stk s) CDC_IN_EP = Some (Null_Buffer, 0)"
      by (auto split: option.splits)
    then show ?thesis
    proof cases
      case full
      with k have w: "in_writes (calls s) = concat (replicate k in_transfer) @ [(Write_Buffer, 2048)]"
        by auto
      from full st In_Done have s': "s' = complete hs s CDC_IN_EP 2048" by simp
      have "in_writes (calls s') = in_writes (calls s) @ [(Null_Buffer, 0)]"
          and "xfers (stk s') CDC_IN_EP = Some (Null_Buffer, 0)"
        by (simp_all add: s' complete_def emit_def ep_lookup_cdc [OF eps] bulk_in_2048)
      with w show ?thesis
        unfolding in_trace_inv_def by (intro exI [of _ "Suc k"]) (simp add: concat_replicate_snoc)
    next
      case zlp
      with k have w: "in_writes (calls s) = concat (replicate k in_transfer)" by auto
      from zlp st In_Done have s': "s' = complete hs s CDC_IN_EP 0" by simp
      have "in_writes (calls s') = in_writes (calls s)" and "xfers (stk s') CDC_IN_EP = None"
        by (simp_all add: s' complete_def emit_def ep_lookup_cdc [OF eps] usbd_cdc_acm_bulk_in_def)
      with w show ?thesis
        unfolding in_trace_inv_def by (intro exI [of _ k]) simp
    qed
  next
    case App_Step
    have first: "in_trace_inv s'"
      if w: "in_writes (calls s) = concat (replicate k in_transfer)"
        and x: "xfers (stk s) CDC_IN_EP \<noteq> Some (Write_Buffer, 2048)"
        and c: "in_writes (calls s') = in_writes (calls s)"
        and x': "xfers (stk s') CDC_IN_EP = xfers (stk s) CDC_IN_EP"
      unfolding in_trace_inv_def by (rule exI [of _ k]) (simp add: w x c x')
    show ?thesis
    proof (cases "app s")
      case Send_Idle
      from k Send_Idle have w: "in_writes (calls s) = concat (replicate k in_transfer)"
        and x: "xfers (stk s) CDC_IN_EP \<noteq> Some (Write_Buffer, 2048)" by simp_all
      from st [symmetric] App_Step Send_Idle have "calls s' = calls s" and "stk s' = stk s"
        by (simp_all add: emit_def split: if_splits)
      with w x show ?thesis by (intro first) simp_all
    next
      case Send_Set_Busy
      from k Send_Set_Busy have w: "in_writes (calls s) = concat (replicate k in_transfer)"
        and x: "xfers (stk s) CDC_IN_EP \<noteq> Some (Write_Buffer, 2048)" by simp_all
      from st [symmetric] App_Step Send_Set_Busy have "calls s' = calls s" and "stk s' = stk s"
        by (simp_all add: emit_def)
      with w x show ?thesis by (intro first) simp_all
    next
      case Send_Start_Write
      from k Send_Start_Write have w: "in_writes (calls s) = concat (replicate k in_transfer)"
        by simp
      from st [symmetric] App_Step Send_Start_Write have s': "s' =
          s\<lparr>app := Send_Spin, stk := stack_call (stk s) (Ep_Start_Write CDC_IN_EP Write_Buffer 2048),
            calls := calls s @ [Ep_Start_Write CDC_IN_EP Write_Buffer 2048]\<rparr>"
        by (simp add: emit_def)
      from busy Send_Start_Write have "ep_tx_busy_flag (cdc s)" by simp
      with w show ?thesis
        unfolding in_trace_inv_def by (intro exI [of _ k]) (simp add: s')
    next
      case Send_Spin
      show ?thesis
      proof (cases "ep_tx_busy_flag (cdc s)")
        case True
        with st [symmetric] App_Step Send_Spin have "s' = s" by (simp add: emit_def)
        with tr show ?thesis by simp
      next
        case False
        from k False have w: "in_writes (calls s) = concat (replicate k in_transfer)"
          and x: "xfers (stk s) CDC_IN_EP \<noteq> Some (Write_Buffer, 2048)" by simp_all
        from st [symmetric] App_Step Send_Spin False have "calls s' = calls s" and "stk s' = stk s"
          by (simp_all add: emit_def)
        with w x show ?thesis by (intro first) simp_all
      qed
    qed
  qed
qed

lemma reach_in_trace_inv: "reach hs s \<Longrightarrow> in_trace_inv s"
proof (induction rule: reach.induct)
  case init
  show ?case by (rule in_trace_inv_init)
next
  case (step s e s')
  from reach_inv [OF step.hyps(1)] step.IH step.hyps(2) show ?case by (rule in_trace_inv_step)
qed

section \<open>The buffers\<close>

text \<open>The buffers under every step: the only DMA into a buffer is that of an OUT read,
  and the OUT read is always armed on the receive buffer, so no step writes the
  transmit buffer and only OUT completions change the receive buffer, by the
  received bytes.\<close>

lemma sys_step_buffers:
  assumes "sys_inv s" and "sys_step hs s e = Some s'"
  shows "write_buffer (cdc s') = write_buffer (cdc s) \<and>
         read_buffer (cdc s') =
           (case e of Out_Done d \<Rightarrow> memcpy_at (read_buffer (cdc s)) 0 d | _ \<Rightarrow> read_buffer (cdc s))"
proof -
  from assms(1) have eps: "endpoints (stk s) = [cdc_out_ep, cdc_in_ep]"
    and out: "xfers (stk s) CDC_OUT_EP \<in> {None, Some (Read_Buffer, 2048)}"
    by (simp_all add: sys_inv_def)
  show ?thesis
  proof (cases e)
    case (Out_Done d)
    with assms(2) out have s': "s' = complete hs (s\<lparr>cdc := store_buf Read_Buffer d (cdc s)\<rparr>) CDC_OUT_EP (of_nat (length d))"
      by (auto split: if_splits)
    show ?thesis
      by (simp add: Out_Done s' complete_def emit_def ep_lookup_cdc [OF eps] usbd_cdc_acm_bulk_out_def store_buf_def)
  next
    case In_Done
    with assms(2) obtain n where s': "s' = complete hs s CDC_IN_EP n"
      by (auto split: option.splits)
    show ?thesis
      by (simp add: In_Done s' complete_def emit_def ep_lookup_cdc [OF eps] usbd_cdc_acm_bulk_in_def Let_def)
  next
    case App_Step
    with assms(2) show ?thesis by (cases "app s") (auto simp: emit_def split: if_splits)
  qed (use assms(2) in \<open>auto simp: emit_def usbd_event_handler_eq usbd_cdc_acm_set_dtr_def\<close>)
qed

lemma sys_step_write_buffer:
  "sys_inv s \<Longrightarrow> sys_step hs s e = Some s' \<Longrightarrow> write_buffer (cdc s') = write_buffer (cdc s)"
  using sys_step_buffers by blast

lemma reach_write_buffer:
  "reach hs s \<Longrightarrow> write_buffer (cdc s) = map chr ''1234567890'' @ replicate 2038 (chr CHR ''a'')"
proof (induction rule: reach.induct)
  case init
  show ?case
    by (simp add: sys_init_def emit_def cdc_acm_init_def cdc_globals_init_def memcpy_at_def
        memset_at_def cdc_acm_init_data_def)
next
  case (step s e s')
  from sys_step_write_buffer [OF reach_inv [OF step.hyps(1)] step.hyps(2)] step.IH show ?case by simp
qed

section \<open>Properties of the running device\<close>

text \<open>
  C1: in every reachable state of the device, an IN transfer is outstanding only while
  the application's send is spinning with the busy flag set, and the busy flag is
  clear whenever the application is outside the send: the flag faithfully guards the
  transmit buffer.
\<close>

theorem busy_flag_guards_in_transfer:
  assumes "reach hs s"
  shows "(xfers (stk s) CDC_IN_EP \<noteq> None \<longrightarrow> app s = Send_Spin \<and> ep_tx_busy_flag (cdc s)) \<and>
         (app s = Send_Idle \<longrightarrow> \<not> ep_tx_busy_flag (cdc s))"
  using reach_inv [OF assms] by (simp add: sys_inv_def)

theorem busy_flag_guards_in_transfer_witness:
  "reach False (the (sys_run False (sys_init False) [Set_Dtr True, App_Step, App_Step, App_Step])) \<and>
   xfers (stk (the (sys_run False (sys_init False) [Set_Dtr True, App_Step, App_Step, App_Step]))) CDC_IN_EP \<noteq> None \<and>
   app (the (sys_run False (sys_init False) [Set_Dtr True, App_Step, App_Step, App_Step])) = Send_Spin \<and>
   ep_tx_busy_flag (cdc (the (sys_run False (sys_init False) [Set_Dtr True, App_Step, App_Step, App_Step])))"
proof -
  let ?s = "the (sys_run False (sys_init False) [Set_Dtr True, App_Step, App_Step, App_Step])"
  have run: "sys_run False (sys_init False) [Set_Dtr True, App_Step, App_Step, App_Step] = Some ?s"
    by (simp add: sys_eval)
  have r: "reach False ?s"
    by (rule sys_run_reach [OF reach.init run])
  have x: "xfers (stk ?s) CDC_IN_EP \<noteq> None"
    by (simp add: sys_eval)
  from busy_flag_guards_in_transfer [OF r] x r show ?thesis by simp
qed

text \<open>
  C2: single writer: in no reachable state has a write ever been submitted on an
  endpoint whose previous transfer was still outstanding, whatever the interleaving of
  interrupts, bus events, DTR changes and the application's send.
\<close>

theorem reach_no_write_overlap:
  assumes "reach hs s"
  shows "\<not> write_overlap (stk s)"
  using reach_inv [OF assms] by (simp add: sys_inv_def)

theorem reach_no_write_overlap_witness:
  "reach True (sys_init True) \<and> \<not> write_overlap (stk (sys_init True))"
  using reach_no_write_overlap [OF reach.init [of True]] reach.init [of True] by simp

text \<open>
  C3: every completed OUT transfer, of any length the armed read allows (0 bytes
  included), re-arms exactly one read of 2048 bytes into the receive buffer; the
  received bytes are at the start of the buffer, which keeps its 2048 bytes.
\<close>

theorem out_done_rearms:
  assumes "reach hs s" and "sys_step hs s (Out_Done d) = Some s'"
  shows "xfers (stk s') CDC_OUT_EP = Some (Read_Buffer, 2048) \<and>
         calls s' = calls s @ [Ep_Start_Read CDC_OUT_EP Read_Buffer 2048] \<and>
         take (length d) (read_buffer (cdc s')) = d \<and> length (read_buffer (cdc s')) = 2048"
proof -
  have inv: "sys_inv s" by (rule reach_inv [OF assms(1)])
  from assms(2) inv have armed: "xfers (stk s) CDC_OUT_EP = Some (Read_Buffer, 2048)"
    and len: "length d \<le> 2048"
    by (auto simp: sys_inv_def split: option.splits if_splits)
  with assms(2) inv show ?thesis
    by (clarsimp simp: sys_inv_def complete_def emit_def store_buf_def ep_lookup_cdc
        usbd_cdc_acm_bulk_out_def memcpy_at_def)
qed

theorem out_done_rearms_witness:
  "reach False (the (sys_run False (sys_init False) [Bus USBD_EVENT_CONFIGURED])) \<and>
   sys_step False (the (sys_run False (sys_init False) [Bus USBD_EVENT_CONFIGURED])) (Out_Done []) =
     Some (the (sys_run False (sys_init False) [Bus USBD_EVENT_CONFIGURED, Out_Done []])) \<and>
   xfers (stk (the (sys_run False (sys_init False) [Bus USBD_EVENT_CONFIGURED, Out_Done []]))) CDC_OUT_EP =
     Some (Read_Buffer, 2048)"
proof -
  let ?s = "the (sys_run False (sys_init False) [Bus USBD_EVENT_CONFIGURED])"
  let ?t = "the (sys_run False (sys_init False) [Bus USBD_EVENT_CONFIGURED, Out_Done []])"
  have run: "sys_run False (sys_init False) [Bus USBD_EVENT_CONFIGURED] = Some ?s"
    by (simp add: sys_eval)
  have r: "reach False ?s" by (rule sys_run_reach [OF reach.init run])
  have st: "sys_step False ?s (Out_Done []) = Some ?t"
    by (simp add: sys_eval cdc_defs)
  from out_done_rearms [OF r st] r st show ?thesis by simp
qed

text \<open>
  C21: session invariant: in every reachable state the OUT endpoint has its 2048-byte
  read into the receive buffer armed exactly while the device is configured: armed by
  the configuration event, re-armed by every OUT completion, dropped only by bus reset
  and disconnect, which also end the configuration.
\<close>

theorem out_armed_iff_configured:
  assumes "reach hs s"
  shows "configured (stk s) \<longleftrightarrow> xfers (stk s) CDC_OUT_EP = Some (Read_Buffer, 2048)"
  using reach_inv [OF assms] by (auto simp: sys_inv_def)

theorem out_armed_iff_configured_witness:
  "reach True (the (sys_run True (sys_init True) [Bus USBD_EVENT_CONFIGURED])) \<and>
   configured (stk (the (sys_run True (sys_init True) [Bus USBD_EVENT_CONFIGURED])))"
proof -
  let ?s = "the (sys_run True (sys_init True) [Bus USBD_EVENT_CONFIGURED])"
  have run: "sys_run True (sys_init True) [Bus USBD_EVENT_CONFIGURED] = Some ?s"
    by (simp add: sys_eval)
  have r: "reach True ?s" by (rule sys_run_reach [OF reach.init run])
  have "xfers (stk ?s) CDC_OUT_EP = Some (Read_Buffer, 2048)" by (simp add: sys_eval)
  with out_armed_iff_configured [OF r] r show ?thesis by simp
qed

text \<open>
  C22: a read is submitted over an outstanding one exactly when the device receives
  the configuration event while already configured (a repeated SET\_CONFIGURATION
  without a reset in between): \<^verbatim>\<open>usbd_event_handler\<close> re-arms the OUT endpoint on
  every configuration event without regard to the read already armed, and no other
  step ever does so.
\<close>

theorem read_rearm_over_outstanding:
  assumes "reach hs s" and "sys_step hs s e = Some s'"
  shows "read_overlap (stk s') \<longleftrightarrow>
           read_overlap (stk s) \<or> (e = Bus USBD_EVENT_CONFIGURED \<and> configured (stk s))"
proof -
  have inv: "sys_inv s" by (rule reach_inv [OF assms(1)])
  then have cfg: "xfers (stk s) CDC_OUT_EP \<noteq> None \<longleftrightarrow> configured (stk s)"
    and eps: "endpoints (stk s) = [cdc_out_ep, cdc_in_ep]"
    by (simp_all add: sys_inv_def)
  show ?thesis
  proof (cases e)
  case (Bus ev)
  with assms(2) cfg show ?thesis
    by (cases "ev = USBD_EVENT_CONFIGURED")
       (auto simp: emit_def usbd_event_handler_eq stack_bus_configured_xfers)
next
  case (Out_Done d)
  with assms(2) show ?thesis
    by (auto simp: complete_def emit_def store_buf_def ep_lookup_cdc [OF eps]
        usbd_cdc_acm_bulk_out_def split: option.splits if_splits)
next
  case In_Done
  with assms(2) show ?thesis
    by (auto simp: complete_def emit_def ep_lookup_cdc [OF eps] usbd_cdc_acm_bulk_in_def Let_def
        split: option.splits if_splits)
next
  case (Set_Dtr b)
  with assms(2) show ?thesis by (auto simp: usbd_cdc_acm_set_dtr_def)
next
  case App_Step
  with assms(2) show ?thesis by (cases "app s") (auto simp: emit_def split: if_splits)
  qed
qed

theorem read_rearm_over_outstanding_witness:
  "read_overlap (stk (the (sys_run True (sys_init True) [Bus USBD_EVENT_CONFIGURED, Bus USBD_EVENT_CONFIGURED])))"
proof -
  let ?s = "the (sys_run True (sys_init True) [Bus USBD_EVENT_CONFIGURED])"
  let ?t = "the (sys_run True (sys_init True) [Bus USBD_EVENT_CONFIGURED, Bus USBD_EVENT_CONFIGURED])"
  have run: "sys_run True (sys_init True) [Bus USBD_EVENT_CONFIGURED] = Some ?s"
    by (simp add: sys_eval)
  have r: "reach True ?s" by (rule sys_run_reach [OF reach.init run])
  have st: "sys_step True ?s (Bus USBD_EVENT_CONFIGURED) = Some ?t"
    by (simp add: sys_eval)
  have "configured (stk ?s)" by (simp add: sys_eval)
  with read_rearm_over_outstanding [OF r st] show ?thesis by simp
qed

text \<open>
  C23: in every reachable state the writes submitted on the IN endpoint so far form a
  sequence of complete transfers, each the 2048-byte payload followed by exactly one
  zero-length packet, possibly followed by one payload still unterminated, and then
  the application is spinning in the send with the busy flag set: no zero-length
  packet is sent without a payload before it, and no payload starts before the
  previous one is terminated.
\<close>

theorem in_write_trace:
  assumes "reach hs s"
  shows "\<exists>k. in_writes (calls s) = concat (replicate k [(Write_Buffer, 2048), (Null_Buffer, 0)]) \<or>
             in_writes (calls s) = concat (replicate k [(Write_Buffer, 2048), (Null_Buffer, 0)]) @ [(Write_Buffer, 2048)] \<and>
             app s = Send_Spin \<and> ep_tx_busy_flag (cdc s)"
  using reach_in_trace_inv [OF assms] unfolding in_trace_inv_def by blast

theorem in_write_trace_witness:
  "\<exists>k. in_writes (calls (the (sys_run False (sys_init False) [Set_Dtr True, App_Step, App_Step, App_Step]))) =
          concat (replicate k [(Write_Buffer, 2048), (Null_Buffer, 0)]) @ [(Write_Buffer, 2048)]"
proof -
  let ?s = "the (sys_run False (sys_init False) [Set_Dtr True, App_Step, App_Step, App_Step])"
  have run: "sys_run False (sys_init False) [Set_Dtr True, App_Step, App_Step, App_Step] = Some ?s"
    by (simp add: sys_eval)
  have r: "reach False ?s" by (rule sys_run_reach [OF reach.init run])
  have "in_writes (calls ?s) \<noteq> concat (replicate k [(Write_Buffer, 2048), (Null_Buffer, 0)])" for k
  proof
    assume "in_writes (calls ?s) = concat (replicate k [(Write_Buffer, 2048), (Null_Buffer, 0)])"
    moreover have "in_writes (calls ?s) = [(Write_Buffer, 2048)]"
      by (simp add: sys_eval in_writes_def)
    ultimately show False by (cases k) simp_all
  qed
  with in_write_trace [OF r] show ?thesis by blast
qed

text \<open>
  C5: send terminates when the host completes the IN transfers: from any reachable
  state where the send is spinning on an outstanding transfer, at most two IN
  completions and one more test of the flag bring the application back out of the
  send with the busy flag clear.
\<close>

theorem send_completes:
  assumes "reach hs s" and "app s = Send_Spin" and "xfers (stk s) CDC_IN_EP \<noteq> None"
  shows "\<exists>es s'. set es \<subseteq> {In_Done, App_Step} \<and> length es \<le> 3 \<and>
           sys_run hs s es = Some s' \<and> app s' = Send_Idle \<and> \<not> ep_tx_busy_flag (cdc s')"
  using spin_run_idle [OF reach_inv [OF assms(1)] assms(2,3)] .

theorem send_completes_witness:
  "\<exists>es s'. set es \<subseteq> {In_Done, App_Step} \<and> length es \<le> 3 \<and>
     sys_run False (the (sys_run False (sys_init False) [Set_Dtr True, App_Step, App_Step, App_Step])) es = Some s' \<and>
     app s' = Send_Idle \<and> \<not> ep_tx_busy_flag (cdc s')"
proof -
  let ?s = "the (sys_run False (sys_init False) [Set_Dtr True, App_Step, App_Step, App_Step])"
  have run: "sys_run False (sys_init False) [Set_Dtr True, App_Step, App_Step, App_Step] = Some ?s"
    by (simp add: sys_eval)
  have r: "reach False ?s" by (rule sys_run_reach [OF reach.init run])
  have "app ?s = Send_Spin" and "xfers (stk ?s) CDC_IN_EP \<noteq> None"
    by (simp_all add: sys_eval)
  from send_completes [OF r this] show ?thesis .
qed

text \<open>
  C6: with DTR deasserted, a call of the send is a no-op: no write is submitted, no
  state changes, and the busy flag stays clear.
\<close>

theorem send_noop_without_dtr:
  assumes "reach hs s" and "app s = Send_Idle" and "dtr_enable (cdc s) = 0"
  shows "sys_step hs s App_Step = Some s \<and> \<not> ep_tx_busy_flag (cdc s)"
  using assms reach_inv [OF assms(1)] by (simp add: emit_def sys_inv_def)

theorem send_noop_without_dtr_witness:
  "reach False (sys_init False) \<and> app (sys_init False) = Send_Idle \<and> dtr_enable (cdc (sys_init False)) = 0 \<and>
   sys_step False (sys_init False) App_Step = Some (sys_init False)"
proof -
  have "app (sys_init False) = Send_Idle" and "dtr_enable (cdc (sys_init False)) = 0"
    by (simp_all add: sys_eval)
  with send_noop_without_dtr [OF reach.init this] reach.init [of False] show ?thesis by simp
qed

text \<open>
  C7: a bus reset while a send is in flight leaves the application spinning forever:
  the reset handler neither completes the dropped transfer nor clears the busy flag,
  so after it no sequence of events of any kind makes the send return.
\<close>

theorem reset_mid_send_hangs:
  "\<exists>s. sys_run hs (sys_init hs) [Set_Dtr True, App_Step, App_Step, App_Step, Bus USBD_EVENT_RESET] = Some s \<and>
       (\<forall>es s'. sys_run hs s es = Some s' \<longrightarrow> app s' = Send_Spin \<and> ep_tx_busy_flag (cdc s'))"
proof -
  obtain s where run: "sys_run hs (sys_init hs) [Set_Dtr True, App_Step, App_Step, App_Step, Bus USBD_EVENT_RESET] = Some s"
    and spin: "app s = Send_Spin" and busy: "ep_tx_busy_flag (cdc s)" and idle: "xfers (stk s) CDC_IN_EP = None"
    by (simp add: sys_eval)
  have "sys_inv s" by (rule reach_inv [OF sys_run_reach [OF reach.init run]])
  with spin busy idle have stuck: "send_stuck s" by (simp add: send_stuck_def)
  have "\<forall>es s'. sys_run hs s es = Some s' \<longrightarrow> app s' = Send_Spin \<and> ep_tx_busy_flag (cdc s')"
  proof (intro allI impI)
    fix es s'
    assume "sys_run hs s es = Some s'"
    with stuck have "send_stuck s'" by (rule send_stuck_run)
    then show "app s' = Send_Spin \<and> ep_tx_busy_flag (cdc s')" by (simp add: send_stuck_def)
  qed
  with run show ?thesis by blast
qed

theorem reset_mid_send_hangs_witness:
  "\<exists>s. sys_run False (sys_init False) [Set_Dtr True, App_Step, App_Step, App_Step, Bus USBD_EVENT_RESET] = Some s \<and>
       (\<forall>es s'. sys_run False s es = Some s' \<longrightarrow> app s' = Send_Spin \<and> ep_tx_busy_flag (cdc s'))"
  by (rule reset_mid_send_hangs [of False])

text \<open>
  C25: a spinning send can still return exactly when an IN transfer is outstanding or
  the busy flag is already clear: from every reachable state where the send spins,
  some sequence of events brings it back if and only if one of the two holds; when
  neither holds (after a bus reset or disconnect during the send), no sequence does.
\<close>

theorem send_returns_iff:
  assumes "reach hs s" and "app s = Send_Spin"
  shows "(\<exists>es s'. sys_run hs s es = Some s' \<and> app s' = Send_Idle) \<longleftrightarrow>
           xfers (stk s) CDC_IN_EP \<noteq> None \<or> \<not> ep_tx_busy_flag (cdc s)"
proof
  assume "\<exists>es s'. sys_run hs s es = Some s' \<and> app s' = Send_Idle"
  then obtain es s' where run: "sys_run hs s es = Some s'" and idle: "app s' = Send_Idle" by blast
  show "xfers (stk s) CDC_IN_EP \<noteq> None \<or> \<not> ep_tx_busy_flag (cdc s)"
  proof (rule ccontr)
    assume "\<not> ?thesis"
    with reach_inv [OF assms(1)] assms(2) have "send_stuck s" by (simp add: send_stuck_def del: not_None_eq)
    from send_stuck_run [OF this run] idle show False by (simp add: send_stuck_def)
  qed
next
  assume "xfers (stk s) CDC_IN_EP \<noteq> None \<or> \<not> ep_tx_busy_flag (cdc s)"
  then show "\<exists>es s'. sys_run hs s es = Some s' \<and> app s' = Send_Idle"
  proof
    assume "xfers (stk s) CDC_IN_EP \<noteq> None"
    from spin_run_idle [OF reach_inv [OF assms(1)] assms(2) this] show ?thesis by blast
  next
    assume "\<not> ep_tx_busy_flag (cdc s)"
    from spin_exit [OF assms(2) this] obtain t where "sys_step hs s App_Step = Some t" "app t = Send_Idle"
      by blast
    then show ?thesis by (intro exI [of _ "[App_Step]"] exI [of _ t]) simp
  qed
qed

theorem send_returns_iff_witness:
  "reach False (the (sys_run False (sys_init False) [Set_Dtr True, App_Step, App_Step, App_Step])) \<and>
   app (the (sys_run False (sys_init False) [Set_Dtr True, App_Step, App_Step, App_Step])) = Send_Spin \<and>
   (\<exists>es s'. sys_run False (the (sys_run False (sys_init False) [Set_Dtr True, App_Step, App_Step, App_Step])) es = Some s' \<and>
      app s' = Send_Idle)"
proof -
  let ?s = "the (sys_run False (sys_init False) [Set_Dtr True, App_Step, App_Step, App_Step])"
  have run: "sys_run False (sys_init False) [Set_Dtr True, App_Step, App_Step, App_Step] = Some ?s"
    by (simp add: sys_eval)
  have r: "reach False ?s" by (rule sys_run_reach [OF reach.init run])
  have spin: "app ?s = Send_Spin" and "xfers (stk ?s) CDC_IN_EP \<noteq> None" by (simp_all add: sys_eval)
  with send_returns_iff [OF r spin] r show ?thesis by blast
qed

text \<open>
  C26: the send does not look at the bus state: from every reachable state with the
  send idle and DTR set, its three statements submit the 2048-byte write of the
  transmit buffer and start spinning, whether or not the device is configured, and
  neither DTR nor the configuration changes; since bus reset and disconnect leave
  \<^verbatim>\<open>dtr_enable\<close> as it was, a send after a disconnect submits a write to an
  unconfigured device.
\<close>

theorem send_ignores_configuration:
  assumes "reach hs s" and "app s = Send_Idle" and "dtr_enable (cdc s) \<noteq> 0"
  shows "\<exists>s'. sys_run hs s [App_Step, App_Step, App_Step] = Some s' \<and>
           calls s' = calls s @ [Ep_Start_Write CDC_IN_EP Write_Buffer 2048] \<and>
           xfers (stk s') CDC_IN_EP = Some (Write_Buffer, 2048) \<and>
           app s' = Send_Spin \<and> ep_tx_busy_flag (cdc s') \<and>
           configured (stk s') = configured (stk s) \<and> dtr_enable (cdc s') = dtr_enable (cdc s)"
  using assms by (simp add: emit_def)

theorem send_ignores_configuration_witness:
  "\<exists>s'. sys_run False (the (sys_run False (sys_init False)
          [Bus USBD_EVENT_CONFIGURED, Set_Dtr True, Bus USBD_EVENT_DISCONNECTED]))
          [App_Step, App_Step, App_Step] = Some s' \<and>
     xfers (stk s') CDC_IN_EP = Some (Write_Buffer, 2048) \<and> \<not> configured (stk s')"
proof -
  let ?s = "the (sys_run False (sys_init False) [Bus USBD_EVENT_CONFIGURED, Set_Dtr True, Bus USBD_EVENT_DISCONNECTED])"
  have run: "sys_run False (sys_init False) [Bus USBD_EVENT_CONFIGURED, Set_Dtr True, Bus USBD_EVENT_DISCONNECTED] = Some ?s"
    by (simp add: sys_eval)
  have r: "reach False ?s" by (rule sys_run_reach [OF reach.init run])
  have idle: "app ?s = Send_Idle" and dtr: "dtr_enable (cdc ?s) \<noteq> 0" and nc: "\<not> configured (stk ?s)"
    by (simp_all add: sys_eval)
  from send_ignores_configuration [OF r idle dtr] nc show ?thesis by auto
qed
end
