(* ===== verification/Framing.thy ===== *)
theory Framing
  imports Cdc_Acm
begin

text \<open>
  What the zero-length-packet rule of \<^verbatim>\<open>usbd_cdc_acm_bulk_in\<close>
  (\<^verbatim>\<open>src/fw/src/setup/usb.c\<close> lines 156--166) is for. USB 2.0 (section 5.8.3)
  sends a bulk write of \<open>L\<close> bytes as packets of the endpoint's maximum size and
  one shorter packet, and the host ends a transfer at the first packet shorter than
  the maximum; a write whose length is a nonzero multiple of the maximum therefore
  needs a zero-length packet after it. \<open>packets\<close> and \<open>host_recv\<close> model these two
  sides from the USB specification; \<open>in_chain\<close> runs the handler on the completion
  of each write it causes, with fuel. The lemmas show that the chain ends within two
  completions with the busy flag clear, and that the host then receives exactly one
  transfer of the written length: the handler refines "one message per send".
  \<open>send_sequential\<close> is the send read as a sequential program over that chain, the
  reference the interleaved system is compared with.
\<close>

section \<open>Bulk framing on the wire\<close>

definition packets :: "nat \<Rightarrow> nat \<Rightarrow> nat list" where
  "packets m L = replicate (L div m) m @ (if L mod m = 0 \<and> L \<noteq> 0 then [] else [L mod m])"

text \<open>The host: completed transfers so far, and the bytes of the transfer still open.\<close>

fun host_recv :: "nat \<Rightarrow> nat \<Rightarrow> nat list \<Rightarrow> nat list \<times> nat" where
  "host_recv m acc [] = ([], acc)"
| "host_recv m acc (p # ps) =
     (if p < m then (let (ts, r) = host_recv m 0 ps in ((acc + p) # ts, r))
      else host_recv m (acc + p) ps)"

section \<open>The completion chain of one write\<close>

fun write_lens :: "usbd_call list \<Rightarrow> u32 list" where
  "write_lens [] = []"
| "write_lens (Ep_Start_Write ep b n # cs) = n # write_lens cs"
| "write_lens (_ # cs) = write_lens cs"

fun in_chain :: "nat \<Rightarrow> bool \<Rightarrow> cdc_state \<Rightarrow> u32 \<Rightarrow> (u32 list \<times> cdc_state) option" where
  "in_chain 0 hs s n = None"
| "in_chain (Suc f) hs s n =
     (case usbd_cdc_acm_bulk_in hs CDC_IN_EP n s of
        (s', cs) \<Rightarrow>
          (case write_lens cs of
             [] \<Rightarrow> Some ([n], s')
           | m # _ \<Rightarrow> map_option (\<lambda>(ws, s''). (n # ws, s'')) (in_chain f hs s' m)))"

text \<open>
  The send read as a sequential program: lines 210--214 of
  \<^verbatim>\<open>cdc_acm_data_send_with_dtr_test\<close> with the spin replaced by the chain of
  completions it waits for, the host completing each IN transfer at once. The result
  is the byte counts of the completed writes and the globals on return.
\<close>

definition send_sequential :: "bool \<Rightarrow> cdc_state \<Rightarrow> (u32 list \<times> cdc_state) option" where
  "send_sequential hs c =
     (if dtr_enable c \<noteq> 0 then in_chain 2 hs (c\<lparr>ep_tx_busy_flag := True\<rparr>) 2048 else Some ([], c))"

section \<open>Host-side lemmas\<close>

lemma host_recv_full:
  "0 < m \<Longrightarrow> host_recv m acc (replicate k m @ ps) = host_recv m (acc + k * m) ps"
  by (induction k arbitrary: acc) (simp_all add: algebra_simps)

lemma host_recv_short:
  "p < m \<Longrightarrow> host_recv m acc (p # ps) = ((acc + p) # fst (host_recv m 0 ps), snd (host_recv m 0 ps))"
  by (simp add: case_prod_unfold Let_def)

lemma packets_delimited:
  assumes "0 < m" and "\<not> (L mod m = 0 \<and> L \<noteq> 0)"
  shows "host_recv m 0 (packets m L @ ps) = (L # fst (host_recv m 0 ps), snd (host_recv m 0 ps))"
proof -
  have p: "packets m L = replicate (L div m) m @ [L mod m]"
    using assms(2) by (simp add: packets_def)
  have "host_recv m 0 (packets m L @ ps) = host_recv m (L div m * m) (L mod m # ps)"
    using assms(1) by (simp add: p host_recv_full)
  also have "\<dots> = ((L div m * m + L mod m) # fst (host_recv m 0 ps), snd (host_recv m 0 ps))"
    using assms(1) by (intro host_recv_short) simp
  finally show ?thesis by simp
qed

lemma packets_open:
  assumes "0 < m" and "L mod m = 0" and "L \<noteq> 0"
  shows "host_recv m 0 (packets m L @ ps) = host_recv m L ps"
proof -
  have L: "L div m * m = L" using div_mult_mod_eq [of L m] assms(2) by simp
  have "packets m L = replicate (L div m) m"
    using assms(2,3) by (simp add: packets_def)
  then show ?thesis using assms(1) by (simp add: host_recv_full L)
qed

lemma packets_zlp: "0 < m \<Longrightarrow> packets m 0 = [0]"
  by (simp add: packets_def)

text \<open>A sequence of complete transfers of the 2048-byte payload, each followed by its
  zero-length packet, reaches the host as that many 2048-byte messages.\<close>

lemma host_recv_transfers:
  assumes "0 < m" and "2048 mod m = 0"
  shows "host_recv m 0 (concat (map (\<lambda>(b, n). packets m (unat n))
           (concat (replicate k [(Write_Buffer, 2048 :: u32), (Null_Buffer, 0)]) @ ws))) =
         (replicate k 2048 @ fst (host_recv m 0 (concat (map (\<lambda>(b, n). packets m (unat n)) ws))),
          snd (host_recv m 0 (concat (map (\<lambda>(b, n). packets m (unat n)) ws))))"
proof (induction k)
  case 0
  then show ?case by simp
next
  case (Suc k)
  let ?rest = "concat (map (\<lambda>(b, n). packets m (unat n)) (concat (replicate k [(Write_Buffer, 2048 :: u32), (Null_Buffer, 0)]) @ ws))"
  have "host_recv m 0 (packets m 2048 @ packets m 0 @ ?rest) = host_recv m 2048 (0 # ?rest)"
    using assms by (simp add: packets_open packets_zlp)
  also have "\<dots> = (2048 # fst (host_recv m 0 ?rest), snd (host_recv m 0 ?rest))"
    using assms(1) by (simp add: case_prod_unfold Let_def)
  finally show ?case using Suc.IH by simp
qed


section \<open>The handler's chain\<close>

lemma bulk_in_zero: "usbd_cdc_acm_bulk_in hs ep 0 c = (c\<lparr>ep_tx_busy_flag := False\<rparr>, [])"
  by (simp add: usbd_cdc_acm_bulk_in_def)

lemma in_chain_short:
  assumes "\<not> (0 < unat n \<and> unat n mod nat (CDC_MAX_MPS hs) = 0)"
  shows "in_chain (Suc f) hs s n = Some ([n], s\<lparr>ep_tx_busy_flag := False\<rparr>)"
  using assms by (auto simp: bulk_in_unat)

lemma in_chain_zlp:
  assumes "0 < unat n" and "unat n mod nat (CDC_MAX_MPS hs) = 0"
  shows "in_chain (Suc (Suc f)) hs s n = Some ([n, 0], s\<lparr>ep_tx_busy_flag := False\<rparr>)"
  using assms by (simp add: bulk_in_unat)

lemma in_chain_2_frames:
  "\<exists>ws s'. in_chain 2 hs s n = Some (ws, s') \<and> \<not> ep_tx_busy_flag s' \<and>
     host_recv (nat (CDC_MAX_MPS hs)) 0 (concat (map (packets (nat (CDC_MAX_MPS hs)) \<circ> unat) ws) @ ps) =
       (unat n # fst (host_recv (nat (CDC_MAX_MPS hs)) 0 ps), snd (host_recv (nat (CDC_MAX_MPS hs)) 0 ps))"
proof -
  let ?m = "nat (CDC_MAX_MPS hs)"
  have m: "0 < ?m" by (rule CDC_MAX_MPS_pos)
  show ?thesis
  proof (cases "0 < unat n \<and> unat n mod ?m = 0")
    case True
    then have "in_chain 2 hs s n = Some ([n, 0], s\<lparr>ep_tx_busy_flag := False\<rparr>)"
      using in_chain_zlp [of n hs 0 s] by (simp add: numeral_2_eq_2)
    moreover have "host_recv ?m 0 (packets ?m (unat n) @ packets ?m 0 @ ps) =
        (unat n # fst (host_recv ?m 0 ps), snd (host_recv ?m 0 ps))"
      using True m by (simp add: packets_open packets_zlp case_prod_unfold Let_def)
    ultimately show ?thesis by simp
  next
    case False
    then have "in_chain 2 hs s n = Some ([n], s\<lparr>ep_tx_busy_flag := False\<rparr>)"
      using in_chain_short [of n hs 1 s] by (simp add: numeral_2_eq_2)
    moreover have "host_recv ?m 0 (packets ?m (unat n) @ ps) =
        (unat n # fst (host_recv ?m 0 ps), snd (host_recv ?m 0 ps))"
      using False m by (intro packets_delimited) auto
    ultimately show ?thesis by simp
  qed
qed

text \<open>
  C4: the IN-completion handler implements the bulk transfer contract: for every
  \<^verbatim>\<open>uint32_t\<close> byte count of a completed write, the chain of zero-length packets it
  adds ends within two completions with \<^verbatim>\<open>ep_tx_busy_flag\<close> clear, and the host,
  framing packets by the bulk packet size, receives exactly one complete transfer of
  that many bytes with nothing left open.
\<close>

theorem in_transfer_refines:
  "\<exists>ws s'. in_chain 2 hs s n = Some (ws, s') \<and> \<not> ep_tx_busy_flag s' \<and>
     host_recv (nat (CDC_MAX_MPS hs)) 0 (concat (map (packets (nat (CDC_MAX_MPS hs)) \<circ> unat) ws)) =
       ([unat n], 0)"
  using in_chain_2_frames [of hs s n "[]"] by simp

text \<open>
  C9: termination of the completion chain, exactly: it needs one completion for a
  byte count that is zero or not a multiple of the packet size and two otherwise, and
  fuel beyond that never changes the result.
\<close>

theorem in_chain_fuel:
  "(in_chain f hs s n \<noteq> None) =
     (2 \<le> f \<or> (f = 1 \<and> \<not> (0 < unat n \<and> unat n mod nat (CDC_MAX_MPS hs) = 0)))"
proof (cases f)
  case 0
  then show ?thesis by simp
next
  case (Suc g)
  show ?thesis
  proof (cases "0 < unat n \<and> unat n mod nat (CDC_MAX_MPS hs) = 0")
    case True
    then show ?thesis using Suc by (cases g) (simp_all add: bulk_in_unat)
  next
    case False
    have "in_chain (Suc g) hs s n = Some ([n], s\<lparr>ep_tx_busy_flag := False\<rparr>)"
      by (rule in_chain_short [OF False])
    with Suc False show ?thesis by auto
  qed
qed

end
