(* ===== verification/LowLevel.thy ===== *)
theory LowLevel
  imports Prelude
begin

text \<open>
  The low-level bring-up of \<^verbatim>\<open>src/fw/src/setup/usb.c\<close> (lines 218--294):
  \<^verbatim>\<open>USB_NVIC_Config\<close> and \<^verbatim>\<open>usb_dc_low_level_init\<close>. The register macros of
  lines 242--256 are bit operations on the 32-bit control register at 0x40001824,
  which the source names both \<^verbatim>\<open>OSC300_CTRL\<close> and \<^verbatim>\<open>DP_CTRL\<close>; the
  \<^verbatim>\<open>while(time--);\<close> delays are loops on a \<^verbatim>\<open>uint32_t\<close>; the vendor library
  calls (NVIC, EXTI, RCC) are recorded in order, and the RCC register masks, whose
  values are in the vendor header, are parameters.
\<close>

section \<open>Register macros\<close>

definition OSC300_CTRL :: u32 where [cdc_defs]: "OSC300_CTRL = 0x40001824"
definition DP_CTRL :: u32 where [cdc_defs]: "DP_CTRL = 0x40001824"

definition DisOsc300Ldo :: "u32 \<Rightarrow> u32" where "DisOsc300Ldo v = v OR 0x800000"
definition EnOsc300Ldo :: "u32 \<Rightarrow> u32" where "EnOsc300Ldo v = v AND NOT 0x800000"
definition DisOsc300Core :: "u32 \<Rightarrow> u32" where "DisOsc300Core v = v OR 0x400000"
definition EnOsc300Core :: "u32 \<Rightarrow> u32" where "EnOsc300Core v = v AND NOT 0x400000"
definition DisOsc300Ibias :: "u32 \<Rightarrow> u32" where "DisOsc300Ibias v = v OR 0x1000000"
definition EnOsc300Ibias :: "u32 \<Rightarrow> u32" where "EnOsc300Ibias v = v AND NOT 0x1000000"

definition ClrDPCtrl :: "u32 \<Rightarrow> u32" where "ClrDPCtrl v = v AND NOT 0x8000000"
definition EnPortPullup :: "u32 \<Rightarrow> u32" where "EnPortPullup v = v OR 0x02000000"
definition DisPortPullup :: "u32 \<Rightarrow> u32" where "DisPortPullup v = v AND 0xFDFFFFFF"

section \<open>The delay loop\<close>

text \<open>
  \<^verbatim>\<open>while(time --);\<close>: each iteration tests the old value and decrements; the loop
  ends after the test that finds 0, and the decrement of that test wraps \<^verbatim>\<open>time\<close>
  around to \<^verbatim>\<open>0xFFFFFFFF\<close>. The second component counts the tests.
\<close>

function delay_loop :: "u32 \<Rightarrow> nat \<Rightarrow> u32 \<times> nat" where
  "delay_loop time n = (if time = 0 then (time - 1, Suc n) else delay_loop (time - 1) (Suc n))"
  by pat_completeness auto
termination
  by (relation "measure (\<lambda>(time, n). unat time)") (auto simp: unat_minus_one unat_gt_0)

section \<open>Peripheral calls and the bring-up state\<close>

text \<open>Interrupt lines and the vendor library's initialisation structures.\<close>

datatype irqn = USB_LP_IRQn | USBWakeUp_IRQn

record NVIC_InitType =
  NVIC_IRQChannel :: irqn
  NVIC_IRQChannelPreemptionPriority :: nat
  NVIC_IRQChannelCmd :: bool

datatype exti_mode = EXTI_Mode_Interrupt
datatype exti_trigger = EXTI_Trigger_Rising

record EXTI_InitType =
  EXTI_Line :: nat
  EXTI_Mode :: exti_mode
  EXTI_Trigger :: exti_trigger
  EXTI_LineCmd :: bool

datatype periph_call =
    NVIC_Init NVIC_InitType
  | EXTI_ClrITPendBit nat
  | EXTI_InitPeripheral EXTI_InitType
  | RCC_ConfigUsbClk_PLLCLK_DIV1
  | RCC_EnableAPB1PeriphClk_USB bool

text \<open>The vendor header's constants used by the bring-up (their values are not in
  \<^verbatim>\<open>src/\<close>): the RCC bit masks and \<^verbatim>\<open>configLIBRARY_MAX_SYSCALL_INTERRUPT_PRIORITY\<close>.\<close>

record rcc_consts =
  RCC_APB1PCLKEN_AFECEN :: u32
  RCC_UCDR300MSource_MASK :: u32
  RCC_UCDR300M_SRC_OSC300M :: u32
  RCC_USBXTALESS_LESSMODE :: u32
  RCC_UCDR_ENABLE :: u32
  configLIBRARY_MAX_SYSCALL_INTERRUPT_PRIORITY :: nat

definition EXTI_LINE17 :: nat where [cdc_defs]: "EXTI_LINE17 = 17"

text \<open>What the bring-up does, in order: library calls, writes of the control register
  at 0x40001824 (with the value written), writes of the RCC registers, delays (with
  the number of loop tests).\<close>

datatype ll_event =
    Ev_Periph periph_call
  | Ev_Ctrl u32
  | Ev_Apb1 u32
  | Ev_Cfg3 u32
  | Ev_Delay nat

record ll_state =
  ctrl_reg :: u32
  apb1pclken :: u32
  cfg3 :: u32
  ll_log :: "ll_event list"

definition write_ctrl :: "(u32 \<Rightarrow> u32) \<Rightarrow> ll_state \<Rightarrow> ll_state" where
  "write_ctrl f s = s\<lparr>ctrl_reg := f (ctrl_reg s), ll_log := ll_log s @ [Ev_Ctrl (f (ctrl_reg s))]\<rparr>"

definition write_cfg3 :: "(u32 \<Rightarrow> u32) \<Rightarrow> ll_state \<Rightarrow> ll_state" where
  "write_cfg3 f s = s\<lparr>cfg3 := f (cfg3 s), ll_log := ll_log s @ [Ev_Cfg3 (f (cfg3 s))]\<rparr>"

definition call :: "periph_call \<Rightarrow> ll_state \<Rightarrow> ll_state" where
  "call c s = s\<lparr>ll_log := ll_log s @ [Ev_Periph c]\<rparr>"

text \<open>\<^verbatim>\<open>time = 0x4000; while(time --);\<close>\<close>

definition delay :: "ll_state \<Rightarrow> ll_state" where
  "delay s = s\<lparr>ll_log := ll_log s @ [Ev_Delay (snd (delay_loop 0x4000 0))]\<rparr>"

section \<open>USB_NVIC_Config and usb_dc_low_level_init\<close>

definition USB_NVIC_Config :: "rcc_consts \<Rightarrow> ll_state \<Rightarrow> ll_state" where
  "USB_NVIC_Config k s =
     (let prio = configLIBRARY_MAX_SYSCALL_INTERRUPT_PRIORITY k;
          nvic1 = \<lparr>NVIC_IRQChannel = USB_LP_IRQn, NVIC_IRQChannelPreemptionPriority = prio,
                   NVIC_IRQChannelCmd = True\<rparr>;
          nvic2 = nvic1\<lparr>NVIC_IRQChannel := USBWakeUp_IRQn\<rparr>;
          exti = \<lparr>EXTI_Line = EXTI_LINE17, EXTI_Mode = EXTI_Mode_Interrupt,
                  EXTI_Trigger = EXTI_Trigger_Rising, EXTI_LineCmd = True\<rparr>
      in call (EXTI_InitPeripheral exti) (call (EXTI_ClrITPendBit EXTI_LINE17)
           (call (NVIC_Init nvic2) (call (NVIC_Init nvic1) s))))"

text \<open>\<open>xtalless\<close> is the build option \<^verbatim>\<open>XTALLESS == 1\<close> (clock from the internal
  300 MHz oscillator instead of the PLL).\<close>

definition usb_dc_low_level_init :: "bool \<Rightarrow> rcc_consts \<Rightarrow> ll_state \<Rightarrow> ll_state" where
  "usb_dc_low_level_init xtalless k s =
     (let s1 = write_ctrl EnPortPullup (USB_NVIC_Config k s);
          s2 = (if xtalless then
                  (let a = s1\<lparr>apb1pclken := apb1pclken s1 OR RCC_APB1PCLKEN_AFECEN k,
                             ll_log := ll_log s1 @ [Ev_Apb1 (apb1pclken s1 OR RCC_APB1PCLKEN_AFECEN k)]\<rparr>;
                       b = write_cfg3 (\<lambda>v. v OR RCC_USBXTALESS_LESSMODE k)
                             (write_cfg3 (\<lambda>v. v OR RCC_UCDR300M_SRC_OSC300M k)
                               (write_cfg3 (\<lambda>v. v AND RCC_UCDR300MSource_MASK k) a));
                       c = delay (write_ctrl EnOsc300Core (delay (write_ctrl EnOsc300Ibias
                             (delay (write_ctrl EnOsc300Ldo b)))))
                   in delay (write_cfg3 (\<lambda>v. v OR RCC_UCDR_ENABLE k) c))
                else call RCC_ConfigUsbClk_PLLCLK_DIV1 s1)
      in call (RCC_EnableAPB1PeriphClk_USB True) s2)"

declare delay_loop.simps [simp del]

section \<open>Properties of the bring-up\<close>

lemma ctrl_masks:
  "(0x02000000::u32) = push_bit 25 1" "(0xFDFFFFFF::u32) = NOT (push_bit 25 1)"
  "(0x800000::u32) = push_bit 23 1" "(0x400000::u32) = push_bit 22 1"
  "(0x1000000::u32) = push_bit 24 1" "(0x8000000::u32) = push_bit 27 1"
  by simp_all

lemma bit_EnPortPullup: "bit (EnPortPullup v) n = (n = 25 \<or> bit v n)"
  unfolding EnPortPullup_def ctrl_masks by (simp only: bit_or_push_u32) simp

lemma bit_DisPortPullup: "bit (DisPortPullup v) n = (n \<noteq> 25 \<and> bit v n)"
  unfolding DisPortPullup_def ctrl_masks by (rule bit_and_not_push_u32)

lemma bit_EnOsc300Ldo: "bit (EnOsc300Ldo v) n = (n \<noteq> 23 \<and> bit v n)"
  unfolding EnOsc300Ldo_def ctrl_masks by (rule bit_and_not_push_u32)

lemma bit_EnOsc300Ibias: "bit (EnOsc300Ibias v) n = (n \<noteq> 24 \<and> bit v n)"
  unfolding EnOsc300Ibias_def ctrl_masks by (rule bit_and_not_push_u32)

lemma bit_EnOsc300Core: "bit (EnOsc300Core v) n = (n \<noteq> 22 \<and> bit v n)"
  unfolding EnOsc300Core_def ctrl_masks by (rule bit_and_not_push_u32)

lemmas bit_ctrl_macros = bit_EnPortPullup bit_DisPortPullup bit_EnOsc300Ldo bit_EnOsc300Ibias bit_EnOsc300Core

text \<open>
  C16: the delay loop \<^verbatim>\<open>while(time --);\<close> on a \<^verbatim>\<open>uint32_t\<close> terminates for every
  start value, after exactly \<open>time + 1\<close> tests, and leaves the counter wrapped around
  to 0xFFFFFFFF; the source's \<^verbatim>\<open>time = 0x4000\<close> delays thus run 0x4001 tests.
\<close>

theorem delay_loop_wraps:
  "delay_loop time n = (0xFFFFFFFF, n + unat time + 1)"
proof (induction time n rule: delay_loop.induct)
  case (1 time n)
  show ?case
  proof (cases "time = 0")
    case True
    then show ?thesis by (simp add: delay_loop.simps)
  next
    case False
    with "1.IH" have "delay_loop (time - 1) (Suc n) = (0xFFFFFFFF, Suc n + unat (time - 1) + 1)" by simp
    moreover have "unat (time - 1) + 1 = unat time" using False unat_gt_0 [of time] by (simp add: unat_minus_one)
    ultimately show ?thesis using False by (simp add: delay_loop.simps [of time n])
  qed
qed

lemmas ll_eval = usb_dc_low_level_init_def USB_NVIC_Config_def write_ctrl_def write_cfg3_def
  call_def delay_def Let_def

text \<open>
  C17: after \<^verbatim>\<open>usb_dc_low_level_init\<close> the shared control register at 0x40001824 has
  the D+ pull-up (bit 25) set; in the XTALLESS build the disable bits of the 300 MHz
  oscillator's LDO, bias and core (bits 23, 24, 22) are cleared; no other bit is
  changed.
\<close>

theorem ctrl_reg_after_init:
  "bit (ctrl_reg (usb_dc_low_level_init xtalless k s)) n =
     (if n = 25 then True
      else if xtalless \<and> n \<in> {22, 23, 24} then False
      else bit (ctrl_reg s) n)"
  by (cases xtalless) (auto simp: ll_eval bit_ctrl_macros)

text \<open>
  C18: the bring-up order: both USB interrupts and EXTI line 17 (rising edge) are
  configured before the pull-up announces the device to the host; the USB peripheral
  clock is enabled last; in the XTALLESS build the pull-up is written before the AFEC
  peripheral clock is enabled, and the oscillator's LDO, bias and core are enabled in
  that order, each followed by a full delay.
\<close>

theorem bringup_order:
  "let L = drop (length (ll_log s)) (ll_log (usb_dc_low_level_init xtalless k s));
       pu = EnPortPullup (ctrl_reg s)
   in take 4 L =
        [Ev_Periph (NVIC_Init \<lparr>NVIC_IRQChannel = USB_LP_IRQn,
           NVIC_IRQChannelPreemptionPriority = configLIBRARY_MAX_SYSCALL_INTERRUPT_PRIORITY k,
           NVIC_IRQChannelCmd = True\<rparr>),
         Ev_Periph (NVIC_Init \<lparr>NVIC_IRQChannel = USBWakeUp_IRQn,
           NVIC_IRQChannelPreemptionPriority = configLIBRARY_MAX_SYSCALL_INTERRUPT_PRIORITY k,
           NVIC_IRQChannelCmd = True\<rparr>),
         Ev_Periph (EXTI_ClrITPendBit 17),
         Ev_Periph (EXTI_InitPeripheral \<lparr>EXTI_Line = 17, EXTI_Mode = EXTI_Mode_Interrupt,
           EXTI_Trigger = EXTI_Trigger_Rising, EXTI_LineCmd = True\<rparr>)] \<and>
      L ! 4 = Ev_Ctrl pu \<and>
      last L = Ev_Periph (RCC_EnableAPB1PeriphClk_USB True) \<and>
      filter (\<lambda>e. case e of Ev_Ctrl v \<Rightarrow> True | Ev_Delay n \<Rightarrow> True | Ev_Apb1 v \<Rightarrow> True | _ \<Rightarrow> False) L =
        (if xtalless
         then [Ev_Ctrl pu, Ev_Apb1 (apb1pclken s OR RCC_APB1PCLKEN_AFECEN k),
               Ev_Ctrl (EnOsc300Ldo pu), Ev_Delay (snd (delay_loop 0x4000 0)),
               Ev_Ctrl (EnOsc300Ibias (EnOsc300Ldo pu)), Ev_Delay (snd (delay_loop 0x4000 0)),
               Ev_Ctrl (EnOsc300Core (EnOsc300Ibias (EnOsc300Ldo pu))), Ev_Delay (snd (delay_loop 0x4000 0)),
               Ev_Delay (snd (delay_loop 0x4000 0))]
         else [Ev_Ctrl pu])"
  by (cases xtalless) (simp_all add: ll_eval cdc_defs)

end
