(* ===== verification/Spec2Isabelle.thy ===== *)
theory Spec2Isabelle
  imports Usb_System Framing LowLevel
begin

text \<open>
  \<^bold>\<open>A verification library for the CDC-ACM device of iotpi/KiConShenZhen2023.\<close>

  The program, \<^verbatim>\<open>src/fw/src/setup/usb.c\<close>, is the class driver of a USB virtual
  serial port on an N32L40x microcontroller, running on the CherryUSB device stack.
  Its parts: a static descriptor table \<^verbatim>\<open>cdc_descriptor\<close> (lines 9--105); two
  2048-byte buffers and the flags \<^verbatim>\<open>ep_tx_busy_flag\<close> and \<^verbatim>\<open>dtr_enable\<close>
  (107--110, 197); the bus-event handler \<^verbatim>\<open>usbd_event_handler\<close> (118--143), which
  arms the first OUT read on configuration; the completion handlers
  \<^verbatim>\<open>usbd_cdc_acm_bulk_out\<close> (re-arm the read) and \<^verbatim>\<open>usbd_cdc_acm_bulk_in\<close>
  (zero-length-packet rule, clear the busy flag) (145--166), bound to their endpoints
  by \<^verbatim>\<open>cdc_out_ep\<close>/\<^verbatim>\<open>cdc_in_ep\<close> (168--177); \<^verbatim>\<open>cdc_acm_init\<close> (182--195);
  the DTR setter (199--206) and the application's DTR-gated, busy-waiting send
  \<^verbatim>\<open>cdc_acm_data_send_with_dtr_test\<close> (208--216); and the low-level clock, pull-up and
  interrupt bring-up (218--294). The stack calls the handlers from its interrupt;
  the send runs in thread context and spins on the flag the IN handler clears.

  \<^bold>\<open>Theories.\<close>
  \<^item> \<open>Prelude\<close>: the C integer types as words, \<open>WBVAL\<close> (the little-endian split of
    16-bit descriptor fields) and its round trip, \<^verbatim>\<open>memcpy\<close>/\<^verbatim>\<open>memset\<close> on buffers.
  \<^item> \<open>Descriptors\<close>: the constants of lines 9--26, the CherryUSB descriptor macros
    (modelled from the USB 2.0 and CDC 1.10 layouts, their headers not being in
    \<^verbatim>\<open>src/\<close>), \<open>cdc_descriptor hs\<close> for both builds (\<open>hs\<close> is
    \<^verbatim>\<open>CONFIG_USB_HS\<close>), a host-side parser \<open>desc_walk\<close> with its round trip, and
    CherryUSB's \<open>usbd_get_descriptor\<close>, with its abstract contract \<open>desc_lookup\<close>
    (the \<open>idx\<close>-th descriptor of a type in the parsed table, or an error). Lemmas:
    the table's layout and well-formedness, \<^verbatim>\<open>wTotalLength\<close>, the string
    descriptors, the answers to GET\_DESCRIPTOR, and the request errors (string
    indices past the fourth, configuration indices past the first, other-speed
    requests). \<open>usbd_get_descriptor\<close> follows the stack's code: it refuses the
    types 4 and 5 and every type above 7 (so BOS, 0x0F, is refused before any search),
    walks the table by \<open>bLength\<close>, and serves \<open>wTotalLength\<close> bytes for types 2
    and 7 and \<open>bLength\<close> bytes otherwise; its index is the low byte of
    \<^verbatim>\<open>wValue\<close>, zero-extended, so a \<open>nat\<close> below 256. The refinement lemma
    characterises its answer for every type and index on the parsed table: the
    abstract lookup for the served types other than 2, the configuration descriptor
    with the interface, class and endpoint descriptors that follow it for type 2, and
    an error for the refused types. A host's structural check of the configuration block
    (\<open>config_consistent\<close>: interface and endpoint counts, numbering, distinct
    endpoint addresses, the interfaces the CDC descriptors name) holds in both builds.
  \<^item> \<open>Cdc_Acm\<close>: the globals as the record \<open>cdc_state\<close>; each handler as a function
    returning the new globals and the list \<open>usbd_call\<close> of stack calls it makes, in
    order; the send as a step function over its program counter \<open>send_pc\<close>, one
    statement per step, because interrupts run between statements.
  \<^item> \<open>Usb_System\<close>: the stack as an environment (spec section 6; not in \<^verbatim>\<open>src/\<close>):
    armed transfers per endpoint, completions dispatched through the registered
    endpoint structures, bus events, transfers dropped on reset and disconnect, and
    ghost flags for writes and reads submitted over an outstanding transfer. \<open>sys_step\<close> is one
    atomic step (an interrupt handler run to completion, a DTR request, or one
    statement of the send); \<open>reach\<close> the states reachable from start-up under any
    interleaving. The invariant \<open>sys_inv\<close> is proved by rule induction, one
    preservation lemma per kind of step; from it: the busy flag guards the IN
    transfer, no write overlaps an outstanding one, reads are always re-armed, the
    send terminates when the host completes its transfers, the send is a no-op
    without DTR, and the OUT read is armed exactly while the device is configured.
    A second invariant \<open>in_trace_inv\<close> over the stack-call trace (the writes on the
    IN endpoint, \<open>in_writes\<close>) shows that the IN endpoint only ever sends complete
    transfers, payload then zero-length packet; a frame lemma shows that no step
    touches the transmit buffer. A read is submitted over an outstanding one exactly on
    a repeated configuration event. \<open>send_stuck\<close> characterises the state after a
    bus reset during a send, from which no event sequence returns; a spinning send
    can return exactly when an IN transfer is outstanding or the flag is clear; the
    send submits its write whatever the bus state, DTR being its only gate.
  \<^item> \<open>Framing\<close>: the abstract contract of the IN pump: USB bulk packetisation and the
    host's framing at short packets (from the USB specification), the chain of
    completions the IN handler causes (with fuel, and a lemma giving the exact fuel
    needed: two), and the refinement that each write reaches the host as one
    complete transfer of its length. \<open>send_sequential\<close>
    reads the send as a sequential program that waits through that chain.
  \<^item> \<open>LowLevel\<close>: \<^verbatim>\<open>USB_NVIC_Config\<close> and \<^verbatim>\<open>usb_dc_low_level_init\<close>
    (218--294) for both builds (\<open>xtalless\<close> is \<^verbatim>\<open>XTALLESS == 1\<close>): the register
    macros as bit operations on the \<open>32 word\<close> control register at 0x40001824, the
    delays \<^verbatim>\<open>while(time--);\<close> as a terminating loop that wraps \<open>time\<close> to
    0xFFFFFFFF, and the vendor library calls recorded in order in a log \<open>ll_log\<close>.
    Lemmas: the loop's exact count, the control register after the bring-up bit by
    bit, and the order of the bring-up.
  \<^item> This theory: properties spanning components: the endpoints registered by
    \<^verbatim>\<open>cdc_acm_init\<close> are the bulk endpoints the table advertises, at the packet
    size the ZLP rule uses; the
    end-to-end property: the host, framing the IN packets of any reachable run,
    receives whole 2048-byte messages of the test payload; and the equivalence of the
    interleaved, statement-by-statement send with its sequential reading when the
    host's completions are the only interference.

  \<^bold>\<open>Bounds and fuel.\<close> Byte counts are \<^verbatim>\<open>uint32_t\<close> (\<open>32 word\<close>); the ZLP test is
  proved equal to the arithmetic one on \<open>unat\<close>, so no wrap-around is involved. The
  IN completion chain is run with fuel; two completions are enough for every byte
  count (\<open>Framing.in_chain_fuel\<close>), and that bound is exact. Liveness of the send is
  stated as the existence of a run of at most three steps.

  \<^bold>\<open>Not modelled.\<close> The vendor library (N32L40x NVIC, EXTI and RCC drivers) is
  not in \<^verbatim>\<open>src/\<close>: its calls are recorded, not executed, and the RCC mask values
  of its header are parameters of the bring-up (\<open>rcc_consts\<close>). The stack's
  control-request handling, FIFO access and SETUP processing, and the logging calls
  (\<^verbatim>\<open>USB_LOG_RAW\<close>), are outside the program. Concurrency is modelled at the
  granularity of C statements of the send and whole interrupt handlers, as the spec's
  section 5 describes the reference platform. Of \<^verbatim>\<open>usb.c\<close> itself nothing with
  behaviour is left out: the lines without a definition of their own are the includes,
  the second, identical \<^verbatim>\<open>#define CDC_MAX_MPS\<close> (112--116, the same constant
  as lines 22--26), blank lines and braces, and the interface structures
  \<^verbatim>\<open>intf0\<close>/\<^verbatim>\<open>intf1\<close>, which CherryUSB's \<^verbatim>\<open>usbd_cdc_acm_init_intf\<close> fills and
  which the model records as the interface numbers 0 and 1. The USB device stack
  remains modelled only through the interface the class driver uses, since its code
  is not part of the repository.

  \<^bold>\<open>Findings.\<close> A bus reset or disconnect during a send leaves the send spinning
  forever (\<open>Usb_System.reset_mid_send_hangs\<close>); in the high-speed build the device
  qualifier (lines 89--101) announces the class 0x02/0x02/0x01 while the device
  descriptor announces 0xEF/0x02/0x01; the code keeps none of the session
  state the spec describes, and the single-writer guarantee rests on the spin, not
  on a test of the busy flag; the bring-up enables the D+ pull-up before the AFEC and
  USB peripheral clocks (\<open>LowLevel.bringup_order\<close>); a repeated configuration event
  re-arms the OUT read over the armed one (\<open>Usb_System.read_rearm_over_outstanding\<close>);
  the high-speed build announces a device qualifier but has no other-speed
  configuration (\<open>Descriptors.get_string_descriptor\<close>); DTR survives bus reset and
  disconnect, so a later send writes to an unconfigured device
  (\<open>Usb_System.send_ignores_configuration\<close>).
\<close>

unbundle bit_operations_syntax

section \<open>Endpoints: registration against the descriptor table\<close>

text \<open>
  C15: the endpoints \<^verbatim>\<open>cdc_acm_init\<close> registers with the stack are exactly the bulk
  endpoints the descriptor table advertises, the OUT one with the direction bit clear
  and the IN one with it set, each with \<^verbatim>\<open>wMaxPacketSize\<close> equal to the
  \<^verbatim>\<open>CDC_MAX_MPS\<close> the zero-length-packet rule divides by; the table's only other
  endpoint is the 8-byte interrupt endpoint 0x83, which no handler serves; and the
  table registered is \<^verbatim>\<open>cdc_descriptor\<close>.
\<close>

theorem registered_endpoints_match_descriptor:
  "\<exists>ds. desc_walk (cdc_descriptor hs) = Some ds \<and>
     map (\<lambda>d. (d ! 2, d ! 3, le16 (d ! 4) (d ! 5))) (filter (\<lambda>d. d ! 1 = 0x05) ds) =
       [(CDC_INT_EP, 0x03, 8),
        (ep_addr cdc_out_ep, 0x02, nat (CDC_MAX_MPS hs)),
        (ep_addr cdc_in_ep, 0x02, nat (CDC_MAX_MPS hs))] \<and>
     ep_addr cdc_out_ep AND 0x80 = 0 \<and> ep_addr cdc_in_ep AND 0x80 = 0x80 \<and>
     endpoints (stk (sys_init hs)) = [cdc_out_ep, cdc_in_ep] \<and>
     registered_desc (stk (sys_init hs)) = Some (cdc_descriptor hs)"
  by (cases hs) (simp_all add: desc_eval sys_eval le16_def cdc_out_ep_def cdc_in_ep_def)

section \<open>End to end: what the host receives\<close>

text \<open>
  C24: in every reachable state of the device, the packets of all writes submitted on
  the IN endpoint so far, cut by the host at short packets with the build's maximum
  packet size, are a number of complete 2048-byte messages, with at most 2048 bytes
  of a message still open; and the transmit buffer those writes send from still holds
  the test payload 1234567890 followed by 2038 bytes \<^verbatim>\<open>'a'\<close>.
\<close>

theorem host_receives_test_payload:
  assumes "reach hs s"
  shows "\<exists>k r. host_recv (nat (CDC_MAX_MPS hs)) 0
             (concat (map (\<lambda>(b, n). packets (nat (CDC_MAX_MPS hs)) (unat n)) (in_writes (calls s)))) =
           (replicate k 2048, r) \<and> r \<in> {0, 2048} \<and>
         write_buffer (cdc s) = map chr ''1234567890'' @ replicate 2038 (chr CHR ''a'')"
proof -
  let ?m = "nat (CDC_MAX_MPS hs)"
  have m: "0 < ?m" by (rule CDC_MAX_MPS_pos)
  have d: "2048 mod ?m = 0" by (cases hs) (simp_all add: CDC_MAX_MPS_def)
  from reach_in_trace_inv [OF assms] obtain k where
    w: "in_writes (calls s) = concat (replicate k in_transfer) @ [] \<or>
        in_writes (calls s) = concat (replicate k in_transfer) @ [(Write_Buffer, 2048)]"
    by (auto simp: in_trace_inv_def)
  have open_tail: "host_recv ?m 0 (packets ?m 2048) = ([], 2048)"
    using packets_open [OF m, of 2048 "[]"] d by simp
  from w have "host_recv ?m 0 (concat (map (\<lambda>(b, n). packets ?m (unat n)) (in_writes (calls s)))) \<in>
      {(replicate k 2048, 0), (replicate k 2048, 2048)}"
    by (elim disjE) (simp_all only: host_recv_transfers [OF m d], simp_all add: open_tail)
  with reach_write_buffer [OF assms] show ?thesis by blast
qed

theorem host_receives_test_payload_witness:
  "\<exists>k r. host_recv (nat (CDC_MAX_MPS False)) 0
     (concat (map (\<lambda>(b, n). packets (nat (CDC_MAX_MPS False)) (unat n))
       (in_writes (calls (the (sys_run False (sys_init False)
          [Set_Dtr True, App_Step, App_Step, App_Step, In_Done, In_Done])))))) = (replicate k 2048, r) \<and>
     r \<in> {0, 2048}"
proof -
  let ?s = "the (sys_run False (sys_init False) [Set_Dtr True, App_Step, App_Step, App_Step, In_Done, In_Done])"
  have run: "sys_run False (sys_init False) [Set_Dtr True, App_Step, App_Step, App_Step, In_Done, In_Done] = Some ?s"
    by (simp add: sys_eval)
  have r: "reach False ?s" by (rule sys_run_reach [OF reach.init run])
  from host_receives_test_payload [OF r] show ?thesis by blast
qed

section \<open>The interleaved send against its sequential reading\<close>

text \<open>
  C28: from every reachable state with the application outside the send, running the
  send statement by statement in the system, with the host completing each IN
  transfer as its only interference, is equivalent to the sequential reading of the
  C function (\<open>Framing.send_sequential\<close>): the same writes are submitted (the
  payload and its zero-length packet with DTR set, none without), the globals on
  return are the same, and the send returns.
\<close>

theorem send_matches_sequential:
  assumes "reach hs s" and "app s = Send_Idle"
  shows "\<exists>ws c' s'. send_sequential hs (cdc s) = Some (ws, c') \<and>
           sys_run hs s (App_Step # (if ws = [] then [] else
             [App_Step, App_Step] @ replicate (length ws) In_Done @ [App_Step])) = Some s' \<and>
           map snd (in_writes (drop (length (calls s)) (calls s'))) = ws \<and>
           cdc s' = c' \<and> app s' = Send_Idle"
proof -
  from reach_inv [OF assms(1)] assms(2) have eps: "endpoints (stk s) = [cdc_out_ep, cdc_in_ep]"
    and idle: "xfers (stk s) CDC_IN_EP = None" and nb: "\<not> ep_tx_busy_flag (cdc s)"
    by (auto simp: sys_inv_def)
  show ?thesis
  proof (cases "dtr_enable (cdc s) = 0")
    case True
    with assms(2) show ?thesis
      by (simp add: send_sequential_def emit_def in_writes_def)
  next
    case False
    have chain: "send_sequential hs (cdc s) = Some ([2048, 0], cdc s)"
      using False nb by (simp add: send_sequential_def numeral_2_eq_2 bulk_in_2048 bulk_in_zero)
    show ?thesis
      using False assms(2) nb idle
      by (simp add: chain emit_def complete_def ep_lookup_cdc [OF eps] bulk_in_2048 bulk_in_zero
          in_writes_def numeral_2_eq_2 Let_def)
  qed
qed

theorem send_matches_sequential_witness:
  "\<exists>ws c' s'. send_sequential False (cdc (the (sys_run False (sys_init False) [Set_Dtr True]))) = Some (ws, c') \<and>
     sys_run False (the (sys_run False (sys_init False) [Set_Dtr True])) (App_Step # (if ws = [] then [] else
       [App_Step, App_Step] @ replicate (length ws) In_Done @ [App_Step])) = Some s' \<and>
     map snd (in_writes (drop (length (calls (the (sys_run False (sys_init False) [Set_Dtr True])))) (calls s'))) = ws \<and>
     cdc s' = c' \<and> app s' = Send_Idle"
proof -
  let ?s = "the (sys_run False (sys_init False) [Set_Dtr True])"
  have run: "sys_run False (sys_init False) [Set_Dtr True] = Some ?s" by (simp add: sys_eval)
  have r: "reach False ?s" by (rule sys_run_reach [OF reach.init run])
  have idle: "app ?s = Send_Idle" by (simp add: sys_eval)
  show ?thesis by (rule send_matches_sequential [OF r idle])
qed

end
